theory Spec2Isabelle
  imports Main "HOL-Library.Multiset" "HOL-Library.Product_Lexorder"
begin

section \<open>Data frames\<close>

text \<open>
  A pandas data frame is a header of column labels and a list of rows; every row has one
  cell per label. Labels are Python strings, written here as their UTF-8 bytes. pandas
  allows one label to stand on several columns, and \<open>rename\<close> can create such
  frames, so the header is a list and not a set. The cell type \<open>'c\<close> is the
  universe of Python values a cell can hold.
\<close>

record 'c frame =
  columns :: "string list"
  rows :: "'c list list"

definition wf_frame :: "'c frame \<Rightarrow> bool" where
  "wf_frame df = list_all (\<lambda>r. length r = length (columns df)) (rows df)"

text \<open>The positions of the columns that carry a label, in header order.\<close>

definition locs :: "string \<Rightarrow> string list \<Rightarrow> nat list" where
  "locs l cs = filter (\<lambda>i. cs ! i = l) [0..<length cs]"

text \<open>
  The pandas primitives the repository calls are parameters of the model. Each of them
  works on a whole column (a pandas Series), not on one value at a time:
  \<^item> \<open>to_datetime\<close>: \<open>pd.to_datetime\<close> on a Series; \<open>None\<close> is the exception it raises,
    whatever its cause (a value that is no date, or values whose formats do not agree),
    and the result is the Series of the timestamps otherwise;
  \<^item> \<open>to_numeric\<close>: \<open>pd.to_numeric\<close> on a Series with \<open>errors="coerce"\<close>, which raises
    nothing: it returns the numeric Series, and it chooses one type for the whole of it;
  \<^item> \<open>rank\<close>: the position of a timestamp in the linear order \<open>sort_values\<close> sorts by
    (a missing timestamp, which it puts last, has the greatest rank);
  \<^item> \<open>tie\<close>: the argsort behind \<open>sort_values\<close>. The source calls \<open>sort_values\<close> with its
    default \<open>kind="quicksort"\<close>, which pandas documents as not stable; from the keys of
    the rows the argsort returns the positions of the rows in the order of the result.
\<close>

record ('c, 'k) pandas =
  to_datetime :: "'c list \<Rightarrow> 'c list option"
  to_numeric :: "'c list \<Rightarrow> 'c list"
  rank :: "'c \<Rightarrow> 'k"
  tie :: "'k list \<Rightarrow> nat list"

datatype error =
    SchemaMismatch "string list"
  | KeyError
  | DateTimeParseError
  | DuplicateKeys
  | NotOneDimensional

text \<open>
  \<open>SchemaMismatch\<close> is the \<open>ValueError\<close> of \<open>_normalize_ohlcv\<close>, with the column list of
  its message; \<open>KeyError\<close> is raised by a selection of a label that is not in the header;
  \<open>DateTimeParseError\<close> is the exception of \<open>pd.to_datetime\<close> on a Series;
  \<open>DuplicateKeys\<close> is the \<open>ValueError\<close> of \<open>pd.to_datetime\<close> and \<open>NotOneDimensional\<close>
  the \<open>TypeError\<close> of \<open>pd.to_numeric\<close> when the label selects several columns.
\<close>

text \<open>
  A column mapping is a Python dict from vendor names to canonical names, written as the
  list of its items in insertion order; the keys of a dict are distinct.
\<close>

type_synonym colmap = "(string \<times> string) list"

text \<open>\<open>df.rename(columns=mp)\<close>: a label that is a key of the dict is replaced.\<close>

definition rename_label :: "colmap \<Rightarrow> string \<Rightarrow> string" where
  "rename_label mp c = (case map_of mp c of None \<Rightarrow> c | Some c' \<Rightarrow> c')"

definition rename :: "colmap \<Rightarrow> 'c frame \<Rightarrow> 'c frame" where
  "rename mp df = df\<lparr>columns := map (rename_label mp) (columns df)\<rparr>"

text \<open>
  \<open>df[labels]\<close>: \<open>KeyError\<close> when a label is missing; otherwise, for each label in turn,
  every column that carries it.
\<close>

definition take_cols :: "nat list \<Rightarrow> 'c frame \<Rightarrow> 'c frame" where
  "take_cols ix df =
     \<lparr>columns = map (\<lambda>i. columns df ! i) ix,
      rows = map (\<lambda>r. map (\<lambda>i. r ! i) ix) (rows df)\<rparr>"

definition getitem_list :: "string list \<Rightarrow> 'c frame \<Rightarrow> error + 'c frame" where
  "getitem_list ls df =
     (if list_all (\<lambda>l. l \<in> set (columns df)) ls
      then Inr (take_cols (concat (map (\<lambda>l. locs l (columns df)) ls)) df)
      else Inl KeyError)"

text \<open>
  The Series at position \<open>i\<close> of a frame, and the assignment of a Series to that
  position. The assignment keeps the rows of the frame: row \<open>k\<close> receives value \<open>k\<close> of
  the Series, and a conversion returns a Series with the index of its argument.
\<close>

definition column :: "nat \<Rightarrow> 'c list list \<Rightarrow> 'c list" where
  "column i rs = map (\<lambda>r. r ! i) rs"

definition set_column :: "nat \<Rightarrow> 'c list \<Rightarrow> 'c list list \<Rightarrow> 'c list list" where
  "set_column i vs rs = map (\<lambda>k. (rs ! k)[i := vs ! k]) [0..<length rs]"

text \<open>
  \<open>df[l] = conv(df[l])\<close> for a conversion \<open>conv\<close> of a Series: \<open>df[l]\<close> is a Series when
  one column carries \<open>l\<close>, and a frame, which the conversion rejects with \<open>dup\<close>, when
  several do. The conversion is applied to the column as a whole.
\<close>

definition setitem_conv ::
  "string \<Rightarrow> ('c list \<Rightarrow> error + 'c list) \<Rightarrow> error \<Rightarrow> 'c frame \<Rightarrow> error + 'c frame" where
  "setitem_conv l conv dup df =
     (case locs l (columns df) of
        [] \<Rightarrow> Inl KeyError
      | [i] \<Rightarrow>
          (case conv (column i (rows df)) of
             Inl e \<Rightarrow> Inl e
           | Inr vs \<Rightarrow> Inr (df\<lparr>rows := set_column i vs (rows df)\<rparr>))
      | _ \<Rightarrow> Inl dup)"

text \<open>\<open>df["datetime"] = pd.to_datetime(df["datetime"])\<close>.\<close>

definition set_datetime :: "('c, 'k) pandas \<Rightarrow> 'c frame \<Rightarrow> error + 'c frame" where
  "set_datetime P df =
     setitem_conv ''datetime''
       (\<lambda>s. case to_datetime P s of None \<Rightarrow> Inl DateTimeParseError | Some ts \<Rightarrow> Inr ts)
       DuplicateKeys df"

text \<open>\<open>df[c] = pd.to_numeric(df[c], errors="coerce")\<close>.\<close>

definition set_numeric :: "('c, 'k) pandas \<Rightarrow> string \<Rightarrow> 'c frame \<Rightarrow> error + 'c frame" where
  "set_numeric P c df = setitem_conv c (\<lambda>s. Inr (to_numeric P s)) NotOneDimensional df"

text \<open>The loop \<open>for c in [...]: df[c] = pd.to_numeric(df[c], errors="coerce")\<close>.\<close>

fun numeric_loop :: "('c, 'k) pandas \<Rightarrow> string list \<Rightarrow> 'c frame \<Rightarrow> error + 'c frame" where
  "numeric_loop P [] df = Inr df"
| "numeric_loop P (c # cs) df =
     (case set_numeric P c df of Inl e \<Rightarrow> Inl e | Inr df' \<Rightarrow> numeric_loop P cs df')"

text \<open>
  \<open>df.sort_values(l)\<close>, ascending, with the default sort kind: pandas computes the argsort
  of the key column and takes the rows in that order. An argsort returns a permutation
  of the positions that puts the keys in ascending order. The model takes the rows in
  the order \<open>tie\<close> gives, provided it is a permutation of the positions, and then sorts
  them by a stable sort, which moves nothing when the keys are ascending already: so the
  result is ascending and has every row once for every value of the parameter, and the
  parameter decides the order of the rows of equal key only.
\<close>

definition arrange :: "nat list \<Rightarrow> 'a list \<Rightarrow> 'a list" where
  "arrange order rs = (if sort order = [0..<length rs] then map (\<lambda>k. rs ! k) order else rs)"

definition sort_rows :: "('c, 'k::linorder) pandas \<Rightarrow> nat \<Rightarrow> 'c list list \<Rightarrow> 'c list list" where
  "sort_rows P i rs =
     sort_key (\<lambda>r. rank P (r ! i)) (arrange (tie P (map (\<lambda>r. rank P (r ! i)) rs)) rs)"

definition sort_values :: "('c, 'k::linorder) pandas \<Rightarrow> string \<Rightarrow> 'c frame \<Rightarrow> error + 'c frame" where
  "sort_values P l df =
     (case locs l (columns df) of
        [] \<Rightarrow> Inl KeyError
      | [i] \<Rightarrow> Inr (df\<lparr>rows := sort_rows P i (rows df)\<rparr>)
      | _ \<Rightarrow> Inl DuplicateKeys)"

text \<open>The order a stable argsort (\<open>kind="stable"\<close>) returns.\<close>

definition stable_order :: "('k::linorder) list \<Rightarrow> nat list" where
  "stable_order keys = sort_key (\<lambda>i. keys ! i) [0..<length keys]"

section \<open>The AKShare normalizer\<close>

definition riqi :: string where
  "riqi = [CHR 0xE6, CHR 0x97, CHR 0xA5, CHR 0xE6, CHR 0x9C, CHR 0x9F]"

definition kaipan :: string where
  "kaipan = [CHR 0xE5, CHR 0xBC, CHR 0x80, CHR 0xE7, CHR 0x9B, CHR 0x98]"

definition zuigao :: string where
  "zuigao = [CHR 0xE6, CHR 0x9C, CHR 0x80, CHR 0xE9, CHR 0xAB, CHR 0x98]"

definition zuidi :: string where
  "zuidi = [CHR 0xE6, CHR 0x9C, CHR 0x80, CHR 0xE4, CHR 0xBD, CHR 0x8E]"

definition shoupan :: string where
  "shoupan = [CHR 0xE6, CHR 0x94, CHR 0xB6, CHR 0xE7, CHR 0x9B, CHR 0x98]"

definition chengjiaoliang :: string where
  "chengjiaoliang =
     [CHR 0xE6, CHR 0x88, CHR 0x90, CHR 0xE4, CHR 0xBA, CHR 0xA4, CHR 0xE9, CHR 0x87, CHR 0x8F]"

definition chengjiaoliang_shou :: string where
  "chengjiaoliang_shou = chengjiaoliang @ ''('' @ [CHR 0xE6, CHR 0x89, CHR 0x8B] @ '')''"

definition chengjiaoliang_gu :: string where
  "chengjiaoliang_gu = chengjiaoliang @ ''('' @ [CHR 0xE8, CHR 0x82, CHR 0xA1] @ '')''"

definition chinese_map :: "string \<Rightarrow> colmap" where
  "chinese_map vol =
     [(riqi, ''datetime''), (kaipan, ''open''), (zuigao, ''high''), (zuidi, ''low''),
      (shoupan, ''close''), (vol, ''volume'')]"

definition english_map :: colmap where
  "english_map =
     [(''date'', ''datetime''), (''open'', ''open''), (''high'', ''high''), (''low'', ''low''),
      (''close'', ''close''), (''volume'', ''volume'')]"

definition builtin_maps :: "colmap list" where
  "builtin_maps =
     [chinese_map chengjiaoliang, english_map,
      chinese_map chengjiaoliang_shou, chinese_map chengjiaoliang_gu]"

text \<open>
  \<open>if mapping: candidate_maps.insert(0, mapping)\<close>: the test is Python's truth value, so
  neither \<open>None\<close> nor an empty dict is inserted.
\<close>

definition candidate_maps :: "colmap option \<Rightarrow> colmap list" where
  "candidate_maps mapping =
     (case mapping of
        None \<Rightarrow> builtin_maps
      | Some m \<Rightarrow> if m = [] then builtin_maps else m # builtin_maps)"

definition matches :: "colmap \<Rightarrow> 'c frame \<Rightarrow> bool" where
  "matches mp df = list_all (\<lambda>col. col \<in> set (columns df)) (map fst mp)"

text \<open>
  The \<open>for mp in candidate_maps: ... break ... else: raise\<close> loop; the result is the
  candidate at which the loop breaks, \<open>None\<close> when it runs into its \<open>else\<close>.
\<close>

fun select_map :: "colmap list \<Rightarrow> 'c frame \<Rightarrow> colmap option" where
  "select_map [] df = None"
| "select_map (mp # mps) df = (if matches mp df then Some mp else select_map mps df)"

definition use_cols :: "string list" where
  "use_cols = [''datetime'', ''open'', ''high'', ''low'', ''close'', ''volume'']"

definition numeric_cols :: "string list" where
  "numeric_cols = [''open'', ''high'', ''low'', ''close'', ''volume'']"

text \<open>Lines 48 to 52 of \<open>_normalize_ohlcv\<close>: the conversions and the sort.\<close>

definition convert_sort :: "('c, 'k::linorder) pandas \<Rightarrow> 'c frame \<Rightarrow> error + 'c frame" where
  "convert_sort P df =
     (case set_datetime P df of
        Inl e \<Rightarrow> Inl e
      | Inr df2 \<Rightarrow>
          (case numeric_loop P numeric_cols df2 of
             Inl e \<Rightarrow> Inl e
           | Inr df3 \<Rightarrow> sort_values P ''datetime'' df3))"

text \<open>Lines 45 to 53 of \<open>_normalize_ohlcv\<close>, on the renamed frame.\<close>

definition finish :: "('c, 'k::linorder) pandas \<Rightarrow> 'c frame \<Rightarrow> error + 'c frame" where
  "finish P df =
     (case getitem_list use_cols df of
        Inl e \<Rightarrow> Inl e
      | Inr df1 \<Rightarrow> convert_sort P df1)"

text \<open>
  What lines 48 to 51 make of the rows of six selected cells, column by column: the first
  column is \<open>pd.to_datetime\<close> of the first column, each of the five others is
  \<open>pd.to_numeric\<close> of that column.
\<close>

definition retype_rows :: "('c, 'k) pandas \<Rightarrow> 'c list list \<Rightarrow> 'c list list" where
  "retype_rows P cells =
     map (\<lambda>k. [the (to_datetime P (column 0 cells)) ! k,
               to_numeric P (column 1 cells) ! k,
               to_numeric P (column 2 cells) ! k,
               to_numeric P (column 3 cells) ! k,
               to_numeric P (column 4 cells) ! k,
               to_numeric P (column 5 cells) ! k]) [0..<length cells]"

definition normalize_ohlcv ::
  "('c, 'k::linorder) pandas \<Rightarrow> 'c frame \<Rightarrow> colmap option \<Rightarrow> error + 'c frame" where
  "normalize_ohlcv P df mapping =
     (case select_map (candidate_maps mapping) df of
        None \<Rightarrow> Inl (SchemaMismatch (columns df))
      | Some mp \<Rightarrow> finish P (rename mp df))"

text \<open>
  For stating what the normalizer returns: the positions the selection \<open>df[use_cols]\<close> picks
  in a header, the six cells it keeps of every row of a raw table renamed by a candidate,
  and the mapping of the six canonical names to themselves.
\<close>

definition use_ix :: "string list \<Rightarrow> nat list" where
  "use_ix cs = concat (map (\<lambda>l. locs l cs) use_cols)"

definition selected_cells :: "colmap \<Rightarrow> 'c frame \<Rightarrow> 'c list list" where
  "selected_cells mp df = map (\<lambda>r. map (\<lambda>i. r ! i) (use_ix (columns (rename mp df)))) (rows df)"

definition identity_map :: colmap where
  "identity_map = map (\<lambda>c. (c, c)) use_cols"

section \<open>The Tushare fetcher\<close>

text \<open>
  \<open>fetch_daily\<close> of \<open>data/fetch_tushare_data.py\<close>. The vendor call \<open>pro.daily(...)\<close> is
  the parameter \<open>api\<close>: \<open>api k\<close> is the outcome of the call made in iteration \<open>k\<close> of the
  loop, an exception (\<open>Inl\<close>) or a frame. The loop runs over \<open>range(retry_count)\<close>, which
  is empty for a count below one. Beside its result the model returns the number of
  vendor calls made. Between two attempts the source only prints a message. The handler
  is \<open>except Exception\<close>, so \<open>'e\<close> is the type of those exceptions; \<open>ts.set_token\<close> and
  \<open>ts.pro_api\<close>, called before the loop, are taken to succeed.
\<close>

datatype 'e fetch_error = VendorError 'e | RuntimeError | FrameError error

function retry_loop :: "(nat \<Rightarrow> 'e + 'a) \<Rightarrow> int \<Rightarrow> nat \<Rightarrow> ('e fetch_error + 'a) \<times> nat" where
  "retry_loop api retry_count attempt =
     (if int attempt < retry_count then
        (case api attempt of
           Inr df \<Rightarrow> (Inr df, Suc attempt)
         | Inl e \<Rightarrow>
             if int attempt + 1 = retry_count then (Inl (VendorError e), Suc attempt)
             else retry_loop api retry_count (Suc attempt))
      else (Inl RuntimeError, attempt))"
  by pat_completeness auto
termination
  by (relation "measure (\<lambda>(api, retry_count, attempt). nat (retry_count - int attempt))") auto

declare retry_loop.simps [simp del]

definition tushare_map :: colmap where
  "tushare_map =
     [(''trade_date'', ''datetime''), (''open'', ''open''), (''high'', ''high''),
      (''low'', ''low''), (''close'', ''close''), (''vol'', ''volume'')]"

text \<open>Lines 73 to 86 of \<open>fetch_daily\<close>: rename, parse the dates, sort, select.\<close>

definition tushare_frame :: "('c, 'k::linorder) pandas \<Rightarrow> 'c frame \<Rightarrow> error + 'c frame" where
  "tushare_frame P df =
     (case set_datetime P (rename tushare_map df) of
        Inl e \<Rightarrow> Inl e
      | Inr df1 \<Rightarrow>
          (case sort_values P ''datetime'' df1 of
             Inl e \<Rightarrow> Inl e
           | Inr df2 \<Rightarrow> getitem_list use_cols df2))"

definition fetch_daily ::
  "('c, 'k::linorder) pandas \<Rightarrow> (nat \<Rightarrow> 'e + 'c frame) \<Rightarrow> int \<Rightarrow> ('e fetch_error + 'c frame) \<times> nat" where
  "fetch_daily P api retry_count =
     (case retry_loop api retry_count 0 of
        (Inl e, n) \<Rightarrow> (Inl e, n)
      | (Inr df, n) \<Rightarrow>
          (case tushare_frame P df of
             Inl e \<Rightarrow> (Inl (FrameError e), n)
           | Inr out \<Rightarrow> (Inr out, n)))"

text \<open>The default \<open>retry_count: int = 3\<close>, which \<open>main\<close> relies on.\<close>

definition fetch_daily_default ::
  "('c, 'k::linorder) pandas \<Rightarrow> (nat \<Rightarrow> 'e + 'c frame) \<Rightarrow> ('e fetch_error + 'c frame) \<times> nat" where
  "fetch_daily_default P api = fetch_daily P api 3"

section \<open>Credential lookup\<close>

text \<open>
  \<open>get_env\<close> of \<open>framework/secrets.py\<close>. The process environment is a map from names to
  values. \<open>load_dotenv\<close>, called with its default \<open>override=False\<close>, adds the variables of
  the \<open>.env\<close> file that the environment does not have yet; the function returns the new
  environment with its result.
\<close>

type_synonym environ = "string \<rightharpoonup> string"

definition load_dotenv :: "environ \<Rightarrow> environ \<Rightarrow> environ" where
  "load_dotenv dotenv env = dotenv ++ env"

definition get_env :: "environ \<Rightarrow> environ \<Rightarrow> string \<Rightarrow> string option \<times> environ" where
  "get_env dotenv env name =
     (let env' = load_dotenv dotenv env;
          v = env' name
      in if v = None \<or> v = Some [] then (None, env') else (v, env'))"

section \<open>The candidate list in the words of the specification\<close>

text \<open>
  The specification builds the candidate list as the custom mapping, when one is given,
  followed by the built-in candidates. This definition follows those words, for
  comparison with \<open>candidate_maps\<close>, which follows the source.
\<close>

definition spec_candidates :: "colmap option \<Rightarrow> colmap list" where
  "spec_candidates mapping = (case mapping of None \<Rightarrow> builtin_maps | Some m \<Rightarrow> m # builtin_maps)"

section \<open>The library calls on example values\<close>

text \<open>
  A small universe of cell values and one instance of the pandas primitives on it, for
  running the model on concrete frames. \<open>Numb\<close> is a Python integer, \<open>Flt n\<close> the
  float64 of integral value \<open>n\<close>, \<open>NaN\<close> the float not-a-number, \<open>Time t\<close> the timestamp
  \<open>t\<close> nanoseconds after the epoch, \<open>NaT\<close> the missing timestamp, and \<open>Text\<close> a string
  that spells neither a number nor a date.
\<close>

datatype pyval = Text string | Numb int | Flt int | Time int | NaN | NaT

text \<open>
  \<open>pd.to_datetime\<close> reads a number as nanoseconds after the epoch, makes \<open>NaT\<close> of a
  missing value, and raises on a string that is no date.
\<close>

fun demo_timestamp :: "pyval \<Rightarrow> pyval option" where
  "demo_timestamp (Time t) = Some (Time t)"
| "demo_timestamp (Numb n) = Some (Time n)"
| "demo_timestamp (Flt n) = Some (Time n)"
| "demo_timestamp NaN = Some NaT"
| "demo_timestamp NaT = Some NaT"
| "demo_timestamp (Text s) = None"

definition demo_to_datetime :: "pyval list \<Rightarrow> pyval list option" where
  "demo_to_datetime s = those (map demo_timestamp s)"

text \<open>
  The conversion of a 64-bit integer to float64: 53 bits of precision, rounding to the
  nearest, ties to even.
\<close>

function bit_length :: "int \<Rightarrow> nat" where
  "bit_length n = (if n \<le> 0 then 0 else Suc (bit_length (n div 2)))"
  by pat_completeness auto
termination
  by (relation "measure nat") auto

declare bit_length.simps [simp del]

definition float64_of_int :: "int \<Rightarrow> int" where
  "float64_of_int n =
     (let a = \<bar>n\<bar>;
          e = bit_length a - 53;
          q = a div 2 ^ e;
          r = a mod 2 ^ e;
          q' = (if 2 ^ e < 2 * r \<or> (2 * r = 2 ^ e \<and> odd q) then q + 1 else q)
      in sgn n * (q' * 2 ^ e))"

text \<open>
  \<open>pd.to_numeric(s, errors="coerce")\<close> gives the Series one type: a Series of integers
  stays as it is; as soon as one value is a float, is missing or does not parse, the
  result is a float64 Series, in which every integer is converted and every value that
  is no number is \<open>NaN\<close>.
\<close>

fun is_int :: "pyval \<Rightarrow> bool" where
  "is_int (Numb n) = True"
| "is_int v = False"

fun to_float :: "pyval \<Rightarrow> pyval" where
  "to_float (Numb n) = Flt (float64_of_int n)"
| "to_float (Flt x) = Flt x"
| "to_float v = NaN"

definition demo_to_numeric :: "pyval list \<Rightarrow> pyval list" where
  "demo_to_numeric s = (if list_all is_int s then s else map to_float s)"

text \<open>A missing timestamp ranks above every timestamp.\<close>

fun demo_rank :: "pyval \<Rightarrow> bool \<times> int" where
  "demo_rank (Time t) = (False, t)"
| "demo_rank NaT = (True, 0)"
| "demo_rank v = (False, 0)"

text \<open>
  The instance used on the example tables takes the stable argsort. On a table whose
  dates are all different every argsort returns the same order.
\<close>

definition demo_pandas :: "(pyval, bool \<times> int) pandas" where
  "demo_pandas =
     \<lparr>to_datetime = demo_to_datetime, to_numeric = demo_to_numeric,
      rank = demo_rank, tie = stable_order\<rparr>"

section \<open>Example tables\<close>

text \<open>
  An AKShare table with Chinese headers, dates descending, one unparseable closing price
  and both a plain and a units-qualified volume column.
\<close>

definition cn_frame :: "pyval frame" where
  "cn_frame =
     \<lparr>columns = [riqi, kaipan, zuigao, zuidi, shoupan, chengjiaoliang, chengjiaoliang_shou],
      rows = [[Numb 3, Numb 10, Numb 11, Numb 9, Text ''x'', Numb 100, Numb 1],
              [Numb 2, Numb 20, Numb 21, Numb 19, Numb 20, Numb 200, Numb 2],
              [Numb 1, Numb 30, Numb 31, Numb 29, Numb 30, Numb 300, Numb 3]]\<rparr>"

text \<open>A Tushare table, and a vendor whose first call fails.\<close>

definition ts_frame :: "pyval frame" where
  "ts_frame =
     \<lparr>columns = [''ts_code'', ''trade_date'', ''open'', ''high'', ''low'', ''close'', ''vol''],
      rows = [[Text ''000001.SZ'', Numb 3, Numb 10, Numb 11, Numb 9, Numb 10, Numb 100],
              [Text ''000001.SZ'', Numb 2, Numb 20, Numb 21, Numb 19, Numb 20, Numb 200]]\<rparr>"

definition flaky_api :: "nat \<Rightarrow> string + pyval frame" where
  "flaky_api k = (if k = 0 then Inl ''timeout'' else Inr ts_frame)"

text \<open>A vendor whose every call fails.\<close>

definition dead_api :: "nat \<Rightarrow> string + pyval frame" where
  "dead_api k = Inl (if k = 2 then ''third failure'' else ''failure'')"

text \<open>An AKShare table with English headers, and one with no date column.\<close>

definition en_frame :: "pyval frame" where
  "en_frame =
     \<lparr>columns = [''date'', ''open'', ''high'', ''low'', ''close'', ''volume''],
      rows = [[Numb 2, Numb 20, Numb 21, Numb 19, Numb 20, Numb 200],
              [Numb 1, Numb 30, Numb 31, Numb 29, Numb 30, Numb 300]]\<rparr>"

definition nodate_frame :: "pyval frame" where
  "nodate_frame =
     \<lparr>columns = [''when'', ''open'', ''high'', ''low'', ''close'', ''volume''],
      rows = [[Numb 2, Numb 20, Numb 21, Numb 19, Numb 20, Numb 200]]\<rparr>"

text \<open>A vendor table that has a \<open>volume\<close> column beside \<open>vol\<close>.\<close>

definition dup_frame :: "pyval frame" where
  "dup_frame =
     \<lparr>columns = [''trade_date'', ''open'', ''high'', ''low'', ''close'', ''vol'', ''volume''],
      rows = [[Numb 2, Numb 20, Numb 21, Numb 19, Numb 20, Numb 200, Numb 7],
              [Numb 1, Numb 30, Numb 31, Numb 29, Numb 30, Numb 300, Numb 8]]\<rparr>"

definition dup_api :: "nat \<Rightarrow> string + pyval frame" where
  "dup_api k = Inr dup_frame"

text \<open>A table that has the canonical column names already.\<close>

definition canon_frame :: "pyval frame" where
  "canon_frame =
     \<lparr>columns = [''datetime'', ''open'', ''high'', ''low'', ''close'', ''volume''],
      rows = [[Numb 2, Numb 20, Numb 21, Numb 19, Text ''n/a'', Numb 200],
              [Numb 1, Numb 30, Numb 31, Numb 29, Numb 30, Numb 300]]\<rparr>"

text \<open>
  A custom mapping that names the date column only, a table it matches, and an English
  table with a date that does not parse.
\<close>

definition date_only_map :: colmap where
  "date_only_map = [(''d'', ''datetime'')]"

definition d_frame :: "pyval frame" where
  "d_frame = \<lparr>columns = [''d''], rows = [[Text ''bad'']]\<rparr>"

definition bad_date_frame :: "pyval frame" where
  "bad_date_frame =
     \<lparr>columns = [''date'', ''open'', ''high'', ''low'', ''close'', ''volume''],
      rows = [[Numb 2, Numb 20, Numb 21, Numb 19, Numb 20, Numb 200],
              [Text ''n/a'', Numb 30, Numb 31, Numb 29, Numb 30, Numb 300]]\<rparr>"

text \<open>A table with two rows of the same date.\<close>

definition tie_frame :: "pyval frame" where
  "tie_frame =
     \<lparr>columns = [''date'', ''open'', ''high'', ''low'', ''close'', ''volume''],
      rows = [[Numb 5, Numb 1, Numb 1, Numb 1, Numb 1, Numb 1],
              [Numb 5, Numb 2, Numb 2, Numb 2, Numb 2, Numb 2]]\<rparr>"

text \<open>A table with eighteen rows of the same date, numbered by their prices.\<close>

definition tie18_frame :: "pyval frame" where
  "tie18_frame =
     \<lparr>columns = [''date'', ''open'', ''high'', ''low'', ''close'', ''volume''],
      rows = [[Numb 5, Numb 1, Numb 1, Numb 1, Numb 1, Numb 1],
              [Numb 5, Numb 2, Numb 2, Numb 2, Numb 2, Numb 2],
              [Numb 5, Numb 3, Numb 3, Numb 3, Numb 3, Numb 3],
              [Numb 5, Numb 4, Numb 4, Numb 4, Numb 4, Numb 4],
              [Numb 5, Numb 5, Numb 5, Numb 5, Numb 5, Numb 5],
              [Numb 5, Numb 6, Numb 6, Numb 6, Numb 6, Numb 6],
              [Numb 5, Numb 7, Numb 7, Numb 7, Numb 7, Numb 7],
              [Numb 5, Numb 8, Numb 8, Numb 8, Numb 8, Numb 8],
              [Numb 5, Numb 9, Numb 9, Numb 9, Numb 9, Numb 9],
              [Numb 5, Numb 10, Numb 10, Numb 10, Numb 10, Numb 10],
              [Numb 5, Numb 11, Numb 11, Numb 11, Numb 11, Numb 11],
              [Numb 5, Numb 12, Numb 12, Numb 12, Numb 12, Numb 12],
              [Numb 5, Numb 13, Numb 13, Numb 13, Numb 13, Numb 13],
              [Numb 5, Numb 14, Numb 14, Numb 14, Numb 14, Numb 14],
              [Numb 5, Numb 15, Numb 15, Numb 15, Numb 15, Numb 15],
              [Numb 5, Numb 16, Numb 16, Numb 16, Numb 16, Numb 16],
              [Numb 5, Numb 17, Numb 17, Numb 17, Numb 17, Numb 17],
              [Numb 5, Numb 18, Numb 18, Numb 18, Numb 18, Numb 18]]\<rparr>"



section \<open>The default sort kind\<close>

text \<open>
  The argsort of numpy for \<open>kind="quicksort"\<close>, as its generic implementation computes
  it (\<open>aquicksort\<close> of \<open>npysort/quicksort.cpp\<close>, the code that runs where no vectorised
  sort is dispatched), on the list \<open>a\<close> of the positions of a segment and the keys \<open>v\<close>:
  a segment of at most 17 positions is sorted by insertion, which is stable; a longer
  one is partitioned around the median of its first, middle and last key, and the two
  parts are sorted in turn. \<open>partition_loop\<close> is the inner loop with its two scans,
  \<open>pi\<close> moving right over the keys below the pivot and \<open>pj\<close> moving left over the keys
  above it. The switch to heapsort after \<open>2 * log2 n\<close> nested partitions is left out.
\<close>

definition swap :: "nat \<Rightarrow> nat \<Rightarrow> 'a list \<Rightarrow> 'a list" where
  "swap i j xs = xs[i := xs ! j, j := xs ! i]"

function partition_loop ::
  "('k::linorder) list \<Rightarrow> 'k \<Rightarrow> nat list \<Rightarrow> nat \<Rightarrow> nat \<Rightarrow> nat list \<times> nat" where
  "partition_loop v vp a pi pj =
     (let pi' = Suc pi + length (takeWhile (\<lambda>x. v ! x < vp) (drop (Suc pi) a));
          pj' = pj - 1 - length (takeWhile (\<lambda>x. vp < v ! x) (rev (take pj a)))
      in if pj' \<le> pi' then (a, pi') else partition_loop v vp (swap pi' pj' a) pi' pj')"
  by pat_completeness auto
termination
  by (relation "measure (\<lambda>(v, vp, a, pi, pj). pj - pi)") (auto simp: Let_def)

declare partition_loop.simps [simp del]

text \<open>
  One partition of a segment \<open>a\<close> of \<open>n\<close> positions: the positions left of the pivot, the
  pivot, and the positions right of it.
\<close>

definition partition_seg :: "('k::linorder) list \<Rightarrow> nat list \<Rightarrow> nat list \<times> nat \<times> nat list" where
  "partition_seg v a =
     (let n = length a;
          m = (n - 1) div 2;
          a1 = (if v ! (a ! m) < v ! (a ! 0) then swap m 0 a else a);
          a2 = (if v ! (a1 ! (n - 1)) < v ! (a1 ! m) then swap (n - 1) m a1 else a1);
          a3 = (if v ! (a2 ! m) < v ! (a2 ! 0) then swap m 0 a2 else a2);
          vp = v ! (a3 ! m);
          a4 = swap m (n - 2) a3;
          (a5, pi) = partition_loop v vp a4 0 (n - 2);
          a6 = swap pi (n - 2) a5
      in (take pi a6, a6 ! pi, drop (Suc pi) a6))"

text \<open>
  Each part has fewer positions than the segment; \<open>take\<close> states this bound where the
  recursion needs it, and cuts nothing off.
\<close>

function introsort_seg :: "('k::linorder) list \<Rightarrow> nat list \<Rightarrow> nat list" where
  "introsort_seg v a =
     (if length a \<le> 17 then sort_key (\<lambda>x. v ! x) a
      else
        (case partition_seg v a of
           (l, x, r) \<Rightarrow>
             introsort_seg v (take (length a - 1) l) @ x # introsort_seg v (take (length a - 1) r)))"
  by pat_completeness auto
termination
  by (relation "measure (\<lambda>(v, a). length a)") auto

declare introsort_seg.simps [simp del]

definition introsort :: "('k::linorder) list \<Rightarrow> nat list" where
  "introsort v = introsort_seg v [0..<length v]"

text \<open>
  \<open>nargsort\<close> of pandas: the positions of the missing keys are set apart and put last,
  in their order; the others are ordered by the argsort of numpy on their keys.
\<close>

definition nargsort :: "(bool \<times> int) list \<Rightarrow> nat list" where
  "nargsort keys =
     (let idx = [0..<length keys];
          non_nan_idx = filter (\<lambda>i. \<not> fst (keys ! i)) idx;
          nan_idx = filter (\<lambda>i. fst (keys ! i)) idx
      in map (\<lambda>k. non_nan_idx ! k) (introsort (map (\<lambda>i. keys ! i) non_nan_idx)) @ nan_idx)"

text \<open>The example instance with this argsort in the place of the stable one.\<close>

definition demo_quicksort :: "(pyval, bool \<times> int) pandas" where
  "demo_quicksort = demo_pandas\<lparr>tie := nargsort\<rparr>"

section \<open>Lemmas about frames\<close>

lemma locs_snoc:
  "locs l (cs @ [c]) = locs l cs @ (if c = l then [length cs] else [])"
proof -
  have "filter (\<lambda>i. (cs @ [c]) ! i = l) [0..<length cs] = filter (\<lambda>i. cs ! i = l) [0..<length cs]"
    by (rule filter_cong) (auto simp: nth_append)
  then show ?thesis by (simp add: locs_def)
qed

lemma locs_Nil: "locs l [] = []"
  by (simp add: locs_def)

lemma length_locs: "length (locs l cs) = count_list cs l"
  by (induction cs rule: rev_induct) (simp_all add: locs_Nil locs_snoc)

lemma set_locs: "set (locs l cs) = {i. i < length cs \<and> cs ! i = l}"
  by (auto simp: locs_def)

lemma map_nth_locs: "map (\<lambda>i. cs ! i) (locs l cs) = replicate (count_list cs l) l"
proof -
  have "map (\<lambda>i. cs ! i) (locs l cs) = map (\<lambda>i. l) (locs l cs)"
    by (rule map_cong) (auto simp: set_locs)
  then show ?thesis by (simp add: map_replicate_const length_locs)
qed

lemma columns_getitem_list:
  "getitem_list ls df = Inr out \<Longrightarrow>
   columns out = concat (map (\<lambda>l. replicate (count_list (columns df) l) l) ls)"
  by (auto simp: getitem_list_def take_cols_def map_concat comp_def map_nth_locs split: if_splits)

lemma length_set_column: "length (set_column i vs rs) = length rs"
  by (simp add: set_column_def)

lemma nth_set_column: "k < length rs \<Longrightarrow> set_column i vs rs ! k = (rs ! k)[i := vs ! k]"
  by (simp add: set_column_def)

lemma length_column: "length (column i rs) = length rs"
  by (simp add: column_def)

lemma column_set_column: "i \<noteq> j \<Longrightarrow> column j (set_column i vs rs) = column j rs"
  by (rule nth_equalityI) (simp_all add: column_def length_set_column nth_set_column)

lemma mset_arrange: "mset (arrange order rs) = mset rs"
proof (cases "sort order = [0..<length rs]")
  case False
  then show ?thesis by (simp add: arrange_def)
next
  case True
  have "mset order = mset (sort order)" by simp
  also have "\<dots> = mset [0..<length rs]" by (simp only: True)
  finally have "mset (map (\<lambda>k. rs ! k) order) = mset (map (\<lambda>k. rs ! k) [0..<length rs])"
    by (simp only: mset_map)
  with True show ?thesis by (simp add: arrange_def map_nth)
qed

lemma mset_sort_rows: "mset (sort_rows P i rs) = mset rs"
  by (simp add: sort_rows_def mset_arrange)


lemma sorted_sort_rows: "sorted (map (\<lambda>r. rank P (r ! i)) (sort_rows P i rs))"
  by (simp add: sort_rows_def)

lemma setitem_conv_at:
  assumes "locs l (columns df) = [i]"
  shows "setitem_conv l conv dup df =
     (case conv (column i (rows df)) of
        Inl e \<Rightarrow> Inl e
      | Inr vs \<Rightarrow> Inr (df\<lparr>rows := set_column i vs (rows df)\<rparr>))"
  using assms by (simp add: setitem_conv_def)

lemma setitem_conv_Inr:
  "setitem_conv l conv dup df = Inr out \<Longrightarrow>
   columns out = columns df \<and> count_list (columns df) l = 1"
proof -
  assume a: "setitem_conv l conv dup df = Inr out"
  then obtain i where i: "locs l (columns df) = [i]"
    by (auto simp: setitem_conv_def split: list.splits)
  then have "length (locs l (columns df)) = 1" by simp
  then have "count_list (columns df) l = 1" by (simp add: length_locs)
  moreover have "columns out = columns df"
    using a by (auto simp: setitem_conv_at [OF i] split: sum.splits)
  ultimately show ?thesis by simp
qed

lemma numeric_loop_Inr:
  "numeric_loop P cs df = Inr out \<Longrightarrow>
   columns out = columns df \<and> list_all (\<lambda>c. count_list (columns df) c = 1) cs"
proof (induction cs arbitrary: df)
  case Nil
  then show ?case by simp
next
  case (Cons c cs)
  from Cons.prems obtain df' where s: "set_numeric P c df = Inr df'" and r: "numeric_loop P cs df' = Inr out"
    by (auto split: sum.splits)
  from s have "columns df' = columns df \<and> count_list (columns df) c = 1"
    unfolding set_numeric_def by (rule setitem_conv_Inr)
  with Cons.IH [OF r] show ?case by simp
qed

lemma sort_values_Inr:
  "sort_values P l df = Inr out \<Longrightarrow> columns out = columns df \<and> count_list (columns df) l = 1"
proof -
  assume a: "sort_values P l df = Inr out"
  then obtain i where i: "locs l (columns df) = [i]"
    by (auto simp: sort_values_def split: list.splits)
  then have "length (locs l (columns df)) = 1" by simp
  then have "count_list (columns df) l = 1" by (simp add: length_locs)
  with a i show ?thesis by (auto simp: sort_values_def)
qed

lemma convert_sort_Inr:
  "convert_sort P df = Inr out \<Longrightarrow>
   columns out = columns df \<and> list_all (\<lambda>c. count_list (columns df) c = 1) use_cols"
proof -
  assume a: "convert_sort P df = Inr out"
  then obtain df2 df3 where d: "set_datetime P df = Inr df2"
    and n: "numeric_loop P numeric_cols df2 = Inr df3"
    and s: "sort_values P ''datetime'' df3 = Inr out"
    by (auto simp: convert_sort_def split: sum.splits)
  from d have 1: "columns df2 = columns df \<and> count_list (columns df) ''datetime'' = 1"
    unfolding set_datetime_def by (rule setitem_conv_Inr)
  from numeric_loop_Inr [OF n] 1
  have 2: "columns df3 = columns df \<and> list_all (\<lambda>c. count_list (columns df) c = 1) numeric_cols"
    by simp
  from sort_values_Inr [OF s] 2 have 3: "columns out = columns df" by simp
  from 1 2 3 show ?thesis by (simp add: use_cols_def numeric_cols_def)
qed

lemma count_list_replicate: "count_list (replicate n x) x = n"
  by (induction n) simp_all

lemma count_canonical:
  "list_all (\<lambda>c. count_list (concat (map (\<lambda>l. replicate (n l) l) use_cols)) c = 1) use_cols \<Longrightarrow>
   concat (map (\<lambda>l. replicate (n l) l) use_cols) = use_cols"
  by (simp add: use_cols_def count_list_replicate)

lemma finish_columns:
  "finish P df = Inr out \<Longrightarrow> columns out = use_cols"
proof -
  assume a: "finish P df = Inr out"
  then obtain df1 where g: "getitem_list use_cols df = Inr df1" and c: "convert_sort P df1 = Inr out"
    by (auto simp: finish_def split: sum.splits)
  from convert_sort_Inr [OF c] columns_getitem_list [OF g] count_canonical
  show ?thesis by simp
qed

lemma locs_use_cols:
  "locs ''datetime'' use_cols = [0]"
  "locs ''open'' use_cols = [1]"
  "locs ''high'' use_cols = [2]"
  "locs ''low'' use_cols = [3]"
  "locs ''close'' use_cols = [4]"
  "locs ''volume'' use_cols = [5]"
  by (simp_all add: locs_def use_cols_def upt_rec)

lemma six_cells:
  "length r = 6 \<Longrightarrow> \<exists>a b c d e f. r = [a, b, c, d, e, f]"
  by (simp add: eval_nat_numeral length_Suc_conv) blast

lemma six_updates:
  assumes "length r = 6"
  shows "r[0 := a, 1 := b, 2 := c, 3 := d, 4 := e, 5 := f] = [a, b, c, d, e, f]"
proof -
  from six_cells [OF assms] obtain a' b' c' d' e' f' where "r = [a', b', c', d', e', f']" by blast
  then show ?thesis by simp
qed

lemma set_numeric_canonical:
  assumes "columns d = use_cols" and "locs c use_cols = [i]"
  shows "set_numeric P c d = Inr (d\<lparr>rows := set_column i (to_numeric P (column i (rows d))) (rows d)\<rparr>)"
proof -
  from assms have "locs c (columns d) = [i]" by simp
  then show ?thesis
    unfolding set_numeric_def by (simp add: setitem_conv_at)
qed

lemma numeric_loop_canonical:
  assumes "columns d = use_cols"
  shows "numeric_loop P numeric_cols d =
     Inr (d\<lparr>rows :=
       set_column 5 (to_numeric P (column 5 (rows d)))
         (set_column 4 (to_numeric P (column 4 (rows d)))
           (set_column 3 (to_numeric P (column 3 (rows d)))
             (set_column 2 (to_numeric P (column 2 (rows d)))
               (set_column 1 (to_numeric P (column 1 (rows d))) (rows d)))))\<rparr>)"
  using assms
  by (simp add: numeric_cols_def set_numeric_canonical locs_use_cols column_set_column)

lemma set_datetime_canonical:
  assumes "columns d = use_cols"
  shows "set_datetime P d =
     (case to_datetime P (column 0 (rows d)) of
        None \<Rightarrow> Inl DateTimeParseError
      | Some ts \<Rightarrow> Inr (d\<lparr>rows := set_column 0 ts (rows d)\<rparr>))"
proof -
  from assms have "locs ''datetime'' (columns d) = [0]" by (simp add: locs_use_cols)
  then show ?thesis
    unfolding set_datetime_def by (simp add: setitem_conv_at split: option.splits)
qed

lemma sort_values_canonical:
  assumes "columns d = use_cols"
  shows "sort_values P ''datetime'' d = Inr (d\<lparr>rows := sort_rows P 0 (rows d)\<rparr>)"
  using assms by (simp add: sort_values_def locs_use_cols)

lemma retype_rows_updates:
  assumes six: "list_all (\<lambda>r. length r = 6) rs"
  shows "set_column 5 (to_numeric P (column 5 rs))
         (set_column 4 (to_numeric P (column 4 rs))
           (set_column 3 (to_numeric P (column 3 rs))
             (set_column 2 (to_numeric P (column 2 rs))
               (set_column 1 (to_numeric P (column 1 rs))
                 (set_column 0 (the (to_datetime P (column 0 rs))) rs)))))
       = retype_rows P rs"
proof (rule nth_equalityI)
  show "length (set_column 5 (to_numeric P (column 5 rs))
         (set_column 4 (to_numeric P (column 4 rs))
           (set_column 3 (to_numeric P (column 3 rs))
             (set_column 2 (to_numeric P (column 2 rs))
               (set_column 1 (to_numeric P (column 1 rs))
                 (set_column 0 (the (to_datetime P (column 0 rs))) rs))))))
       = length (retype_rows P rs)"
    by (simp add: length_set_column retype_rows_def)
next
  fix k
  assume "k < length (set_column 5 (to_numeric P (column 5 rs))
         (set_column 4 (to_numeric P (column 4 rs))
           (set_column 3 (to_numeric P (column 3 rs))
             (set_column 2 (to_numeric P (column 2 rs))
               (set_column 1 (to_numeric P (column 1 rs))
                 (set_column 0 (the (to_datetime P (column 0 rs))) rs))))))"
  then have k: "k < length rs" by (simp add: length_set_column)
  with six have "length (rs ! k) = 6" by (simp add: list_all_length)
  from six_updates [OF this] k
  show "set_column 5 (to_numeric P (column 5 rs))
         (set_column 4 (to_numeric P (column 4 rs))
           (set_column 3 (to_numeric P (column 3 rs))
             (set_column 2 (to_numeric P (column 2 rs))
               (set_column 1 (to_numeric P (column 1 rs))
                 (set_column 0 (the (to_datetime P (column 0 rs))) rs))))) ! k
       = retype_rows P rs ! k"
    by (simp add: length_set_column nth_set_column retype_rows_def)
qed

lemma convert_sort_canonical:
  assumes cols: "columns d = use_cols" and six: "list_all (\<lambda>r. length r = 6) (rows d)"
  shows "convert_sort P d =
     (case to_datetime P (column 0 (rows d)) of
        None \<Rightarrow> Inl DateTimeParseError
      | Some ts \<Rightarrow> Inr (d\<lparr>rows := sort_rows P 0 (retype_rows P (rows d))\<rparr>))"
proof (cases "to_datetime P (column 0 (rows d))")
  case None
  with cols show ?thesis by (simp add: convert_sort_def set_datetime_canonical)
next
  case (Some ts)
  define d2 where "d2 = d\<lparr>rows := set_column 0 ts (rows d)\<rparr>"
  define d3 where "d3 = d2\<lparr>rows :=
       set_column 5 (to_numeric P (column 5 (rows d2)))
         (set_column 4 (to_numeric P (column 4 (rows d2)))
           (set_column 3 (to_numeric P (column 3 (rows d2)))
             (set_column 2 (to_numeric P (column 2 (rows d2)))
               (set_column 1 (to_numeric P (column 1 (rows d2))) (rows d2)))))\<rparr>"
  have c2: "columns d2 = use_cols" and c3: "columns d3 = use_cols"
    using cols by (simp_all add: d2_def d3_def)
  have s1: "set_datetime P d = Inr d2"
    using Some cols by (simp add: set_datetime_canonical d2_def)
  have s2: "numeric_loop P numeric_cols d2 = Inr d3"
    using c2 by (simp add: numeric_loop_canonical d3_def)
  have r3: "rows d3 = retype_rows P (rows d)"
    using retype_rows_updates [OF six, of P] Some
    by (simp add: d3_def d2_def column_set_column)
  have "sort_values P ''datetime'' d3 = Inr (d3\<lparr>rows := sort_rows P 0 (retype_rows P (rows d))\<rparr>)"
    using c3 r3 by (simp add: sort_values_canonical)
  moreover have "d3\<lparr>rows := X\<rparr> = d\<lparr>rows := X\<rparr>" for X
    by (simp add: d3_def d2_def)
  ultimately show ?thesis using Some s1 s2 by (simp add: convert_sort_def)
qed

lemma finish_Inr:
  assumes "finish P df = Inr out"
  shows "list_all (\<lambda>c. count_list (columns df) c = 1) use_cols
    \<and> to_datetime P (column 0
         (rows (take_cols (concat (map (\<lambda>l. locs l (columns df)) use_cols)) df))) \<noteq> None
    \<and> out = \<lparr>columns = use_cols,
             rows = sort_rows P 0 (retype_rows P
                 (rows (take_cols (concat (map (\<lambda>l. locs l (columns df)) use_cols)) df)))\<rparr>"
proof -
  define ix where "ix = concat (map (\<lambda>l. locs l (columns df)) use_cols)"
  from assms have g: "getitem_list use_cols df = Inr (take_cols ix df)"
    and c: "convert_sort P (take_cols ix df) = Inr out"
    by (auto simp: finish_def getitem_list_def ix_def split: sum.splits if_splits)
  have cc: "columns (take_cols ix df)
      = concat (map (\<lambda>l. replicate (count_list (columns df) l) l) use_cols)"
    by (rule columns_getitem_list [OF g])
  from convert_sort_Inr [OF c] cc
  have one: "list_all (\<lambda>c. count_list (concat (map (\<lambda>l. replicate (count_list (columns df) l) l) use_cols)) c = 1) use_cols"
    by simp
  from count_canonical [OF one] cc have cols: "columns (take_cols ix df) = use_cols" by simp
  from one have cnt: "list_all (\<lambda>c. count_list (columns df) c = 1) use_cols"
    by (simp add: use_cols_def count_list_replicate)
  then have "length ix = 6"
    by (simp add: ix_def use_cols_def length_locs)
  then have six: "list_all (\<lambda>r. length r = 6) (rows (take_cols ix df))"
    by (simp add: take_cols_def list_all_iff)
  from c convert_sort_canonical [OF cols six, of P]
  have parse: "to_datetime P (column 0 (rows (take_cols ix df))) \<noteq> None"
    and out: "out = (take_cols ix df)\<lparr>rows := sort_rows P 0 (retype_rows P (rows (take_cols ix df)))\<rparr>"
    by (auto split: option.splits)
  have "(take_cols ix df)\<lparr>rows := X\<rparr> = \<lparr>columns = use_cols, rows = X\<rparr>" for X
    using cols by (cases "take_cols ix df") simp
  with out cnt parse show ?thesis by (simp add: ix_def)
qed

lemma replicate_ones:
  "list_all (\<lambda>l. c l = 1) ls \<Longrightarrow> concat (map (\<lambda>l. replicate (c l) l) ls) = ls"
  by (induction ls) simp_all

section \<open>Lemmas about the retry loop and the Tushare frame\<close>

lemma retry_loop_all_fail:
  "int a < rc \<Longrightarrow> (\<forall>k. a \<le> k \<and> int k < rc \<longrightarrow> api k = Inl (e k)) \<Longrightarrow>
   retry_loop api rc a = (Inl (VendorError (e (nat rc - 1))), nat rc)"
proof (induction api rc a rule: retry_loop.induct)
  case (1 api rc a)
  have here: "api a = Inl (e a)" using "1.prems" by simp
  show ?case
  proof (cases "int a + 1 = rc")
    case True
    then have "nat rc - 1 = a" "nat rc = Suc a" by auto
    with True here "1.prems"(1) show ?thesis
      by (subst retry_loop.simps) simp
  next
    case False
    with "1.prems"(1) have lt: "int (Suc a) < rc" by simp
    have "retry_loop api rc (Suc a) = (Inl (VendorError (e (nat rc - 1))), nat rc)"
      using "1.IH" [OF "1.prems"(1) here False lt] "1.prems"(2) by simp
    with False here "1.prems"(1) show ?thesis
      by (subst retry_loop.simps) simp
  qed
qed

lemma retry_loop_first_success:
  "a \<le> k \<Longrightarrow> int k < rc \<Longrightarrow> api k = Inr df \<Longrightarrow> (\<forall>j. a \<le> j \<and> j < k \<longrightarrow> isl (api j)) \<Longrightarrow>
   retry_loop api rc a = (Inr df, Suc k)"
proof (induction api rc a rule: retry_loop.induct)
  case (1 api rc a)
  show ?case
  proof (cases "a = k")
    case True
    with "1.prems" show ?thesis by (subst retry_loop.simps) simp
  next
    case False
    with "1.prems" have lt: "a < k" and fail: "isl (api a)" by auto
    then obtain e where here: "api a = Inl e" by (cases "api a") auto
    from lt "1.prems"(2) have a_lt: "int a < rc" and ne: "int a + 1 \<noteq> rc" by auto
    have "retry_loop api rc (Suc a) = (Inr df, Suc k)"
      using "1.IH" [OF a_lt here ne] lt "1.prems" by simp
    with a_lt here ne show ?thesis by (subst retry_loop.simps) simp
  qed
qed

lemma retry_loop_calls:
  "int a \<le> rc \<or> rc \<le> 0 \<Longrightarrow> snd (retry_loop api rc a) \<le> max a (nat rc)"
proof (induction api rc a rule: retry_loop.induct)
  case (1 api rc a)
  show ?case
  proof (cases "int a < rc")
    case False
    then show ?thesis by (subst retry_loop.simps) simp
  next
    case True
    show ?thesis
    proof (cases "api a")
      case (Inr df)
      with True show ?thesis by (subst retry_loop.simps) auto
    next
      case (Inl e)
      show ?thesis
      proof (cases "int a + 1 = rc")
        case True
        with Inl \<open>int a < rc\<close> show ?thesis by (subst retry_loop.simps) auto
      next
        case False
        have "snd (retry_loop api rc (Suc a)) \<le> max (Suc a) (nat rc)"
          using "1.IH" [OF True Inl False] True by simp
        with True Inl False show ?thesis by (subst retry_loop.simps) auto
      qed
    qed
  qed
qed

lemma fetch_daily_Inr:
  assumes "fetch_daily P api rc = (Inr out, n)"
  shows "\<exists>df. retry_loop api rc 0 = (Inr df, n) \<and> tushare_frame P df = Inr out"
  using assms by (auto simp: fetch_daily_def split: prod.splits sum.splits)

lemma tushare_frame_Inr:
  assumes "tushare_frame P df = Inr out"
  shows "\<exists>i ts. locs ''datetime'' (columns (rename tushare_map df)) = [i]
     \<and> to_datetime P (column i (rows df)) = Some ts
     \<and> out = take_cols (concat (map (\<lambda>l. locs l (columns (rename tushare_map df))) use_cols))
         ((rename tushare_map df)\<lparr>rows := sort_rows P i (set_column i ts (rows df))\<rparr>)"
proof -
  let ?d = "rename tushare_map df"
  from assms obtain d1 d2 where s1: "set_datetime P ?d = Inr d1"
    and s2: "sort_values P ''datetime'' d1 = Inr d2"
    and s3: "getitem_list use_cols d2 = Inr out"
    by (auto simp: tushare_frame_def split: sum.splits)
  from s1 obtain i where i: "locs ''datetime'' (columns ?d) = [i]"
    by (auto simp: set_datetime_def setitem_conv_def split: list.splits)
  from s1 obtain ts where p: "to_datetime P (column i (rows ?d)) = Some ts"
    and d1: "d1 = ?d\<lparr>rows := set_column i ts (rows ?d)\<rparr>"
    unfolding set_datetime_def setitem_conv_at [OF i] by (auto split: option.splits)
  from d1 i have i1: "locs ''datetime'' (columns d1) = [i]" by simp
  from s2 i1 have d2: "d2 = d1\<lparr>rows := sort_rows P i (rows d1)\<rparr>"
    by (simp add: sort_values_def)
  from s3 have "out = take_cols (concat (map (\<lambda>l. locs l (columns d2)) use_cols)) d2"
    by (auto simp: getitem_list_def split: if_splits)
  with d2 d1 p i show ?thesis by (simp add: rename_def)
qed

lemma tushare_frame_columns:
  assumes "tushare_frame P df = Inr out"
  shows "columns out =
     concat (map (\<lambda>l. replicate (count_list (map (rename_label tushare_map) (columns df)) l) l) use_cols)"
proof -
  from assms obtain d1 d2 where s1: "set_datetime P (rename tushare_map df) = Inr d1"
    and s2: "sort_values P ''datetime'' d1 = Inr d2"
    and s3: "getitem_list use_cols d2 = Inr out"
    by (auto simp: tushare_frame_def split: sum.splits)
  from s1 have "columns d1 = columns (rename tushare_map df)"
    unfolding set_datetime_def by (simp add: setitem_conv_Inr)
  moreover from s2 have "columns d2 = columns d1" by (simp add: sort_values_Inr)
  ultimately show ?thesis using columns_getitem_list [OF s3] by (simp add: rename_def)
qed

lemma tushare_frame_sorted:
  assumes "tushare_frame P df = Inr out"
  shows "sorted (map (\<lambda>r. rank P (r ! 0)) (rows out))"
proof -
  let ?cs = "columns (rename tushare_map df)"
  from tushare_frame_Inr [OF assms] obtain i ts where i: "locs ''datetime'' ?cs = [i]"
    and out: "out = take_cols (concat (map (\<lambda>l. locs l ?cs) use_cols))
         ((rename tushare_map df)\<lparr>rows := sort_rows P i (set_column i ts (rows df))\<rparr>)"
    by blast
  obtain rest where ix: "concat (map (\<lambda>l. locs l ?cs) use_cols) = i # rest"
    using i by (simp add: use_cols_def)
  have "map (\<lambda>r. rank P (r ! 0)) (rows out)
      = map (\<lambda>r. rank P (r ! i)) (sort_rows P i (set_column i ts (rows df)))"
    unfolding out ix by (simp add: take_cols_def comp_def)
  then show ?thesis by (simp add: sorted_sort_rows)
qed

lemma finish_sorted:
  assumes "finish P df = Inr out"
  shows "sorted (map (\<lambda>r. rank P (r ! 0)) (rows out))"
  using finish_Inr [OF assms] by (simp add: sorted_sort_rows)

lemma normalize_Inr:
  assumes "normalize_ohlcv P df mapping = Inr out"
  shows "\<exists>mp. select_map (candidate_maps mapping) df = Some mp \<and> finish P (rename mp df) = Inr out"
  using assms by (auto simp: normalize_ohlcv_def split: option.splits)

lemma adjacent_sorted:
  "sorted (map f xs) \<Longrightarrow> Suc i < length xs \<Longrightarrow> f (xs ! i) \<le> f (xs ! Suc i)"
  using sorted_nth_mono [of "map f xs" i "Suc i"] by simp

lemma fetch_daily_calls:
  "snd (fetch_daily P api rc) = snd (retry_loop api rc 0)"
  by (simp add: fetch_daily_def split: prod.splits sum.splits)

lemma retry_loop_Inr:
  "retry_loop api rc a = (Inr df, n) \<Longrightarrow> a < n \<and> api (n - 1) = Inr df"
proof (induction api rc a rule: retry_loop.induct)
  case (1 api rc a)
  show ?case
  proof (cases "int a < rc")
    case False
    with "1.prems" show ?thesis by (subst (asm) retry_loop.simps) simp
  next
    case True
    show ?thesis
    proof (cases "api a")
      case (Inr d)
      with True "1.prems" show ?thesis by (subst (asm) retry_loop.simps) auto
    next
      case (Inl e)
      show ?thesis
      proof (cases "int a + 1 = rc")
        case True
        with Inl \<open>int a < rc\<close> "1.prems" show ?thesis by (subst (asm) retry_loop.simps) simp
      next
        case False
        with True Inl "1.prems" have "retry_loop api rc (Suc a) = (Inr df, n)"
          by (subst (asm) retry_loop.simps) simp
        from "1.IH" [OF True Inl False this] show ?thesis by simp
      qed
    qed
  qed
qed

section \<open>Lemmas about the candidate scan and the errors\<close>

lemma matches_iff: "matches mp df \<longleftrightarrow> fst ` set mp \<subseteq> set (columns df)"
  by (auto simp: matches_def list_all_iff)

lemma select_map_find: "select_map cands df = find (\<lambda>mp. matches mp df) cands"
  by (induction cands) simp_all

lemma select_map_None:
  "select_map cands df = None \<longleftrightarrow> (\<forall>mp\<in>set cands. \<not> matches mp df)"
  by (induction cands) simp_all

lemma select_map_Some:
  "select_map cands df = Some mp \<Longrightarrow>
   \<exists>pre post. cands = pre @ mp # post \<and> matches mp df \<and> (\<forall>m\<in>set pre. \<not> matches m df)"
proof (induction cands)
  case Nil
  then show ?case by simp
next
  case (Cons c cands)
  show ?case
  proof (cases "matches c df")
    case True
    with Cons.prems have "c = mp" by simp
    with True have "c # cands = [] @ mp # cands \<and> matches mp df \<and> (\<forall>m\<in>set []. \<not> matches m df)"
      by simp
    then show ?thesis by blast
  next
    case False
    with Cons.prems have "select_map cands df = Some mp" by simp
    from Cons.IH [OF this] obtain pre post where
      "cands = pre @ mp # post" "matches mp df" "\<forall>m\<in>set pre. \<not> matches m df" by blast
    with False have "c # cands = (c # pre) @ mp # post \<and> matches mp df \<and> (\<forall>m\<in>set (c # pre). \<not> matches m df)"
      by simp
    then show ?thesis by blast
  qed
qed

lemma setitem_conv_Inl:
  "setitem_conv l conv dup df = Inl e \<Longrightarrow>
   e = KeyError \<or> e = dup \<or> (\<exists>s. conv s = Inl e)"
  by (auto simp: setitem_conv_def split: list.splits sum.splits)

lemma numeric_loop_Inl:
  "numeric_loop P cs df = Inl e \<Longrightarrow> e = KeyError \<or> e = NotOneDimensional"
proof (induction cs arbitrary: df)
  case Nil
  then show ?case by simp
next
  case (Cons c cs)
  show ?case
  proof (cases "set_numeric P c df")
    case (Inl e')
    with Cons.prems have "e' = e" by simp
    with Inl show ?thesis
      unfolding set_numeric_def by (auto dest: setitem_conv_Inl)
  next
    case (Inr df')
    with Cons.prems have "numeric_loop P cs df' = Inl e" by simp
    then show ?thesis by (rule Cons.IH)
  qed
qed

lemma sort_values_Inl:
  "sort_values P l df = Inl e \<Longrightarrow> e = KeyError \<or> e = DuplicateKeys"
  by (auto simp: sort_values_def split: list.splits)

lemma set_datetime_Inl:
  "set_datetime P df = Inl e \<Longrightarrow> e = KeyError \<or> e = DateTimeParseError \<or> e = DuplicateKeys"
  unfolding set_datetime_def
  by (auto dest!: setitem_conv_Inl split: option.splits)

lemma convert_sort_Inl:
  "convert_sort P df = Inl e \<Longrightarrow>
   e = KeyError \<or> e = DateTimeParseError \<or> e = DuplicateKeys \<or> e = NotOneDimensional"
  unfolding convert_sort_def
  by (auto split: sum.splits dest: set_datetime_Inl numeric_loop_Inl sort_values_Inl)

lemma finish_Inl:
  "finish P df = Inl e \<Longrightarrow>
   e = KeyError \<or> e = DateTimeParseError \<or> e = DuplicateKeys \<or> e = NotOneDimensional"
  unfolding finish_def getitem_list_def
  by (auto split: sum.splits if_splits dest: convert_sort_Inl)

lemma finish_not_schema: "finish P df \<noteq> Inl (SchemaMismatch cs)"
  using finish_Inl [of P df "SchemaMismatch cs"] by auto

section \<open>Lemmas about the rows of the output\<close>

lemma count_one_mem: "count_list cs l = 1 \<Longrightarrow> l \<in> set cs"
  using count_list_0_iff [of cs l] by auto

lemma finish_unique:
  assumes one: "list_all (\<lambda>c. count_list (columns df) c = 1) use_cols"
  shows "finish P df =
     (case to_datetime P (column 0 (rows (take_cols (use_ix (columns df)) df))) of
        None \<Rightarrow> Inl DateTimeParseError
      | Some ts \<Rightarrow>
          Inr \<lparr>columns = use_cols,
               rows = sort_rows P 0 (retype_rows P (rows (take_cols (use_ix (columns df)) df)))\<rparr>)"
proof -
  let ?d = "take_cols (use_ix (columns df)) df"
  from one have "list_all (\<lambda>l. l \<in> set (columns df)) use_cols"
    by (simp add: list_all_iff count_one_mem)
  then have g: "getitem_list use_cols df = Inr ?d"
    by (simp add: getitem_list_def use_ix_def)
  from columns_getitem_list [OF g] replicate_ones [OF one]
  have cols: "columns ?d = use_cols" by simp
  from one have "length (use_ix (columns df)) = 6"
    by (simp add: use_ix_def use_cols_def length_locs)
  then have six: "list_all (\<lambda>r. length r = 6) (rows ?d)"
    by (simp add: take_cols_def list_all_iff)
  have "?d\<lparr>rows := X\<rparr> = \<lparr>columns = use_cols, rows = X\<rparr>" for X
    using cols by (cases ?d) simp
  with g convert_sort_canonical [OF cols six, of P] show ?thesis
    by (simp add: finish_def split: option.splits)
qed

lemma finish_Inr_cells:
  assumes "finish P df = Inr out"
  shows "list_all (\<lambda>c. count_list (columns df) c = 1) use_cols
    \<and> to_datetime P (column 0 (rows (take_cols (use_ix (columns df)) df))) \<noteq> None
    \<and> out = \<lparr>columns = use_cols,
             rows = sort_rows P 0 (retype_rows P (rows (take_cols (use_ix (columns df)) df)))\<rparr>"
  using finish_Inr [OF assms] by (simp add: use_ix_def)

lemma rows_take_rename:
  "rows (take_cols (use_ix (columns (rename mp df))) (rename mp df)) = selected_cells mp df"
  by (simp add: take_cols_def selected_cells_def rename_def)

lemma normalize_Inr_cells:
  assumes "normalize_ohlcv P df mapping = Inr out"
  shows "\<exists>mp. select_map (candidate_maps mapping) df = Some mp
    \<and> list_all (\<lambda>c. count_list (columns (rename mp df)) c = 1) use_cols
    \<and> to_datetime P (column 0 (selected_cells mp df)) \<noteq> None
    \<and> out = \<lparr>columns = use_cols, rows = sort_rows P 0 (retype_rows P (selected_cells mp df))\<rparr>"
proof -
  from normalize_Inr [OF assms] obtain mp where s: "select_map (candidate_maps mapping) df = Some mp"
    and f: "finish P (rename mp df) = Inr out" by blast
  from finish_Inr_cells [OF f] s show ?thesis
    by (simp only: rows_take_rename) blast
qed

lemma normalize_unique:
  assumes "select_map (candidate_maps mapping) df = Some mp"
    and "list_all (\<lambda>c. count_list (columns (rename mp df)) c = 1) use_cols"
  shows "normalize_ohlcv P df mapping =
     (case to_datetime P (column 0 (selected_cells mp df)) of
        None \<Rightarrow> Inl DateTimeParseError
      | Some ts \<Rightarrow>
          Inr \<lparr>columns = use_cols, rows = sort_rows P 0 (retype_rows P (selected_cells mp df))\<rparr>)"
  using assms(1) finish_unique [OF assms(2), of P]
  by (simp only: rows_take_rename normalize_ohlcv_def option.case)


lemma builtin_not_canonical:
  "columns df = use_cols \<Longrightarrow> select_map builtin_maps df = None"
  by (simp add: builtin_maps_def chinese_map_def english_map_def matches_def use_cols_def riqi_def)

lemma rename_label_identity: "rename_label identity_map c = c"
  by (simp add: rename_label_def identity_map_def use_cols_def)

lemma rename_identity: "rename identity_map df = df"
proof -
  have "rename_label identity_map = (\<lambda>c. c)"
    by (rule ext) (rule rename_label_identity)
  then show ?thesis by (simp add: rename_def)
qed

lemma use_ix_canonical: "use_ix use_cols = [0, 1, 2, 3, 4, 5]"
  by (simp add: use_ix_def locs_use_cols) (simp add: use_cols_def locs_use_cols [unfolded use_cols_def])

lemma selected_cells_canonical:
  assumes "columns df = use_cols" and "wf_frame df"
  shows "selected_cells identity_map df = rows df"
proof -
  have "map (\<lambda>i. r ! i) [0, 1, 2, 3, 4, 5] = r" if "length r = 6" for r :: "'a list"
  proof -
    from six_cells [OF that] obtain a b c d e f where "r = [a, b, c, d, e, f]" by blast
    then show ?thesis by simp
  qed
  moreover from assms have "\<forall>r\<in>set (rows df). length r = 6"
    by (simp add: wf_frame_def list_all_iff use_cols_def)
  ultimately have "map (\<lambda>r. map (\<lambda>i. r ! i) [0, 1, 2, 3, 4, 5]) (rows df) = rows df"
    by (simp add: map_idI)
  with assms(1) show ?thesis
    by (simp add: selected_cells_def rename_identity use_ix_canonical)
qed

lemma selected_cells_six:
  assumes "list_all (\<lambda>c. count_list (columns (rename mp df)) c = 1) use_cols"
  shows "list_all (\<lambda>r. length r = 6) (selected_cells mp df)"
proof -
  from assms have "length (use_ix (columns (rename mp df))) = 6"
    by (simp add: use_ix_def use_cols_def length_locs)
  then show ?thesis by (simp add: selected_cells_def list_all_iff)
qed

section \<open>Lemmas about unparseable dates\<close>

lemma count_selected:
  "l \<in> set use_cols \<Longrightarrow>
   count_list (concat (map (\<lambda>l. replicate (count_list cs l) l) use_cols)) l = count_list cs l"
  by (auto simp: use_cols_def count_list_replicate)

lemma setitem_conv_dup:
  "2 \<le> count_list (columns df) l \<Longrightarrow> setitem_conv l conv dup df = Inl dup"
proof -
  assume "2 \<le> count_list (columns df) l"
  then have "2 \<le> length (locs l (columns df))" by (simp add: length_locs)
  then obtain i j rest where "locs l (columns df) = i # j # rest"
    by (cases "locs l (columns df)" rule: list.exhaust; simp)
       (metis One_nat_def Suc_1 length_0_conv length_Cons list.exhaust not_less_eq_eq le_zero_eq)
  then show ?thesis by (simp add: setitem_conv_def)
qed

lemma finish_bad_date:
  assumes i: "i \<in> set (locs ''datetime'' (columns df))"
    and bad: "to_datetime P (column i (rows df)) = None"
  shows "finish P df =
     (if \<not> list_all (\<lambda>l. l \<in> set (columns df)) use_cols then Inl KeyError
      else if locs ''datetime'' (columns df) = [i] then Inl DateTimeParseError
      else Inl DuplicateKeys)"
proof (cases "list_all (\<lambda>l. l \<in> set (columns df)) use_cols")
  case False
  then show ?thesis by (simp add: finish_def getitem_list_def)
next
  case True
  let ?cs = "columns df"
  let ?ix = "concat (map (\<lambda>l. locs l ?cs) use_cols)"
  let ?d = "take_cols ?ix df"
  from True have g: "getitem_list use_cols df = Inr ?d"
    by (simp add: getitem_list_def)
  have cols: "columns ?d = concat (map (\<lambda>l. replicate (count_list ?cs l) l) use_cols)"
    by (rule columns_getitem_list [OF g])
  have cnt: "count_list (columns ?d) ''datetime'' = count_list ?cs ''datetime''"
    unfolding cols by (rule count_selected) (simp add: use_cols_def)
  show ?thesis
  proof (cases "locs ''datetime'' ?cs = [i]")
    case single: True
    then have "length (locs ''datetime'' ?cs) = 1" by simp
    then have one: "count_list ?cs ''datetime'' = 1" by (simp add: length_locs)
    with cnt have "length (locs ''datetime'' (columns ?d)) = 1" by (simp add: length_locs)
    then obtain j where j: "locs ''datetime'' (columns ?d) = [j]"
      by (cases "locs ''datetime'' (columns ?d)") auto
    have "columns ?d ! 0 = ''datetime'' \<and> 0 < length (columns ?d)"
      unfolding cols using one by (simp add: use_cols_def)
    then have "0 \<in> set (locs ''datetime'' (columns ?d))" by (simp add: set_locs)
    with j have j0: "locs ''datetime'' (columns ?d) = [0]" by simp
    obtain rest where ix: "?ix = i # rest"
      using single by (simp add: use_cols_def)
    have "column 0 (rows ?d) = column i (rows df)"
      by (simp add: take_cols_def column_def ix comp_def)
    with bad have "to_datetime P (column 0 (rows ?d)) = None" by simp
    then have "set_datetime P ?d = Inl DateTimeParseError"
      unfolding set_datetime_def setitem_conv_at [OF j0] by simp
    with g single True show ?thesis by (simp add: finish_def convert_sort_def)
  next
    case False
    from i have "1 \<le> length (locs ''datetime'' ?cs)"
      by (cases "locs ''datetime'' ?cs") auto
    moreover from i False have "length (locs ''datetime'' ?cs) \<noteq> 1"
      by (cases "locs ''datetime'' ?cs") auto
    ultimately have "2 \<le> count_list ?cs ''datetime''" by (simp add: length_locs)
    with cnt have "2 \<le> count_list (columns ?d) ''datetime''" by simp
    then have "set_datetime P ?d = Inl DuplicateKeys"
      unfolding set_datetime_def by (rule setitem_conv_dup)
    with g False True show ?thesis by (simp add: finish_def convert_sort_def)
  qed
qed

lemma renamed_values:
  assumes "matches mp df" and "distinct (map fst mp)" and "(k, v) \<in> set mp"
  shows "v \<in> set (columns (rename mp df))"
proof -
  from assms(1,3) have "k \<in> set (columns df)"
    by (auto simp: matches_def list_all_iff)
  moreover from assms(2,3) have "rename_label mp k = v"
    by (simp add: rename_label_def)
  ultimately show ?thesis by (auto simp: rename_def)
qed

lemma builtin_keys_distinct: "mp \<in> set builtin_maps \<Longrightarrow> distinct (map fst mp)"
  by (auto simp: builtin_maps_def chinese_map_def english_map_def riqi_def kaipan_def zuigao_def
      zuidi_def shoupan_def chengjiaoliang_def chengjiaoliang_shou_def chengjiaoliang_gu_def)

lemma builtin_values: "mp \<in> set builtin_maps \<Longrightarrow> l \<in> set use_cols \<Longrightarrow> \<exists>k. (k, l) \<in> set mp"
  by (auto simp: builtin_maps_def chinese_map_def english_map_def use_cols_def)

lemma builtin_covers:
  assumes "mp \<in> set builtin_maps" and "matches mp df"
  shows "list_all (\<lambda>l. l \<in> set (columns (rename mp df))) use_cols"
proof -
  have "l \<in> set (columns (rename mp df))" if "l \<in> set use_cols" for l
  proof -
    from builtin_values [OF assms(1) that] obtain k where "(k, l) \<in> set mp" by blast
    from renamed_values [OF assms(2) builtin_keys_distinct [OF assms(1)] this] show ?thesis .
  qed
  then show ?thesis by (simp add: list_all_iff)
qed

lemma select_map_matches: "select_map cands df = Some mp \<Longrightarrow> matches mp df"
  using select_map_Some [of cands df mp] by blast

section \<open>Lemmas about the order of the rows\<close>

lemma map_insort_key:
  assumes "\<forall>y\<in>set (x # xs). h y = f (g y)"
  shows "map g (insort_key h x xs) = insort_key f (g x) (map g xs)"
  using assms by (induction xs) simp_all

lemma map_sort_key:
  assumes "\<forall>y\<in>set xs. h y = f (g y)"
  shows "map g (sort_key h xs) = sort_key f (map g xs)"
  using assms
proof (induction xs)
  case Nil
  then show ?case by simp
next
  case (Cons x xs)
  then have "\<forall>y\<in>set (x # sort_key h xs). h y = f (g y)" by simp
  from map_insort_key [of x "sort_key h xs" h f g, OF this] Cons show ?case by simp
qed

lemma sort_stable_order: "sort (stable_order keys) = [0..<length keys]"
  unfolding stable_order_def by (rule properties_for_sort) simp_all

lemma arrange_stable_order: "arrange (stable_order (map f rs)) rs = sort_key f rs"
proof -
  have "map (\<lambda>k. rs ! k) (sort_key (\<lambda>i. map f rs ! i) [0..<length rs])
      = sort_key f (map (\<lambda>k. rs ! k) [0..<length rs])"
    by (rule map_sort_key) simp
  then have "map (\<lambda>k. rs ! k) (stable_order (map f rs)) = sort_key f rs"
    by (simp add: stable_order_def map_nth)
  with sort_stable_order [of "map f rs"] show ?thesis
    by (simp add: arrange_def)
qed

lemma sort_rows_ties:
  "filter (\<lambda>r. rank P (r ! i) = k) (sort_rows P i rs)
   = filter (\<lambda>r. rank P (r ! i) = k) (arrange (tie P (map (\<lambda>r. rank P (r ! i)) rs)) rs)"
  by (simp add: sort_rows_def sort_key_stable)

lemma sort_rows_stable:
  assumes "tie P (map (\<lambda>r. rank P (r ! i)) rs) = stable_order (map (\<lambda>r. rank P (r ! i)) rs)"
  shows "sort_rows P i rs = sort_key (\<lambda>r. rank P (r ! i)) rs"
proof -
  have "sort_key (\<lambda>r. rank P (r ! i)) (sort_key (\<lambda>r. rank P (r ! i)) rs)
      = sort_key (\<lambda>r. rank P (r ! i)) rs"
    by (rule sort_key_id_if_sorted) simp
  with assms show ?thesis
    by (simp add: sort_rows_def arrange_stable_order)
qed

lemma sort_rows_argsort:
  assumes "sorted (map (\<lambda>r. rank P (r ! i)) (arrange (tie P (map (\<lambda>r. rank P (r ! i)) rs)) rs))"
  shows "sort_rows P i rs = arrange (tie P (map (\<lambda>r. rank P (r ! i)) rs)) rs"
  unfolding sort_rows_def using assms by (rule sort_key_id_if_sorted)


section \<open>First-match selection\<close>

text \<open>
  C1, as amended: the candidate list is the custom mapping, when it is given and not
  empty, followed by the four built-in candidates in their declaration order; an empty
  custom mapping is left out, as an absent one is. The scan takes the first candidate of
  that list whose keys are all columns of the raw table: every candidate before it has a
  key that is no column. The table is renamed by that candidate, and the normalizer fails
  with \<open>SchemaMismatch\<close> when there is none.
\<close>

theorem first_match:
  "candidate_maps None = builtin_maps
   \<and> candidate_maps (Some []) = builtin_maps
   \<and> (m \<noteq> [] \<longrightarrow> candidate_maps (Some m) = m # builtin_maps)
   \<and> builtin_maps =
       [chinese_map chengjiaoliang, english_map,
        chinese_map chengjiaoliang_shou, chinese_map chengjiaoliang_gu]
   \<and> select_map cands df = find (\<lambda>mp. fst ` set mp \<subseteq> set (columns df)) cands
   \<and> (select_map cands df = Some mp \<longrightarrow>
        (\<exists>pre post. cands = pre @ mp # post \<and> fst ` set mp \<subseteq> set (columns df)
           \<and> (\<forall>c\<in>set pre. \<not> fst ` set c \<subseteq> set (columns df))))
   \<and> normalize_ohlcv P df mapping =
       (case find (\<lambda>mp. fst ` set mp \<subseteq> set (columns df)) (candidate_maps mapping) of
          None \<Rightarrow> Inl (SchemaMismatch (columns df))
        | Some mp \<Rightarrow> finish P (rename mp df))"
proof -
  have f: "select_map cs df = find (\<lambda>mp. fst ` set mp \<subseteq> set (columns df)) cs" for cs
    using select_map_find [of cs df] by (simp add: matches_iff [abs_def])
  have s: "select_map cands df = Some mp \<longrightarrow>
        (\<exists>pre post. cands = pre @ mp # post \<and> fst ` set mp \<subseteq> set (columns df)
           \<and> (\<forall>c\<in>set pre. \<not> fst ` set c \<subseteq> set (columns df)))"
    using select_map_Some [of cands df mp] by (simp add: matches_iff)
  have n: "normalize_ohlcv P df mapping =
       (case find (\<lambda>mp. fst ` set mp \<subseteq> set (columns df)) (candidate_maps mapping) of
          None \<Rightarrow> Inl (SchemaMismatch (columns df))
        | Some mp \<Rightarrow> finish P (rename mp df))"
    by (simp add: normalize_ohlcv_def f)
  from f s n show ?thesis
    by (simp add: candidate_maps_def builtin_maps_def)
qed

theorem first_match_witness:
  "fst ` set (chinese_map chengjiaoliang) \<subseteq> set (columns cn_frame)
   \<and> fst ` set (chinese_map chengjiaoliang_shou) \<subseteq> set (columns cn_frame)
   \<and> select_map (candidate_maps None) cn_frame = Some (chinese_map chengjiaoliang)
   \<and> select_map (candidate_maps (Some (chinese_map chengjiaoliang_shou))) cn_frame
       = Some (chinese_map chengjiaoliang_shou)
   \<and> normalize_ohlcv demo_pandas cn_frame (Some (chinese_map chengjiaoliang_shou)) =
       Inr \<lparr>columns = [''datetime'', ''open'', ''high'', ''low'', ''close'', ''volume''],
            rows = [[Time 1, Numb 30, Numb 31, Numb 29, Flt 30, Numb 3],
                    [Time 2, Numb 20, Numb 21, Numb 19, Flt 20, Numb 2],
                    [Time 3, Numb 10, Numb 11, Numb 9, NaN, Numb 1]]\<rparr>"
proof -
  have a: "fst ` set (chinese_map chengjiaoliang) \<subseteq> set (columns cn_frame)"
    and b: "fst ` set (chinese_map chengjiaoliang_shou) \<subseteq> set (columns cn_frame)"
    by (simp_all add: chinese_map_def cn_frame_def)
  have fc: "find (\<lambda>mp. fst ` set mp \<subseteq> set (columns cn_frame)) (candidate_maps None)
       = Some (chinese_map chengjiaoliang)"
    by (simp add: candidate_maps_def builtin_maps_def chinese_map_def cn_frame_def)
  have fd: "find (\<lambda>mp. fst ` set mp \<subseteq> set (columns cn_frame))
         (candidate_maps (Some (chinese_map chengjiaoliang_shou)))
       = Some (chinese_map chengjiaoliang_shou)"
    by (simp add: candidate_maps_def chinese_map_def cn_frame_def)
  have "select_map (candidate_maps None) cn_frame
      = find (\<lambda>mp. fst ` set mp \<subseteq> set (columns cn_frame)) (candidate_maps None)"
    using first_match [of "[]" "candidate_maps None" cn_frame "[]" demo_pandas None]
    by blast
  with fc have c: "select_map (candidate_maps None) cn_frame = Some (chinese_map chengjiaoliang)"
    by (simp only:)
  have "select_map (candidate_maps (Some (chinese_map chengjiaoliang_shou))) cn_frame
      = find (\<lambda>mp. fst ` set mp \<subseteq> set (columns cn_frame))
          (candidate_maps (Some (chinese_map chengjiaoliang_shou)))"
    using first_match [of "[]" "candidate_maps (Some (chinese_map chengjiaoliang_shou))" cn_frame
        "[]" demo_pandas None]
    by blast
  with fd have d: "select_map (candidate_maps (Some (chinese_map chengjiaoliang_shou))) cn_frame
       = Some (chinese_map chengjiaoliang_shou)"
    by (simp only:)
  have e: "normalize_ohlcv demo_pandas cn_frame (Some (chinese_map chengjiaoliang_shou)) =
       Inr \<lparr>columns = [''datetime'', ''open'', ''high'', ''low'', ''close'', ''volume''],
            rows = [[Time 1, Numb 30, Numb 31, Numb 29, Flt 30, Numb 3],
                    [Time 2, Numb 20, Numb 21, Numb 19, Flt 20, Numb 2],
                    [Time 3, Numb 10, Numb 11, Numb 9, NaN, Numb 1]]\<rparr>"
    by code_simp
  from a b c d e show ?thesis by simp
qed

text \<open>
  C1 as stated fails for an empty custom mapping: in the list of the specification it is
  the first candidate whose keys are all present, and renaming by it leaves no
  \<open>datetime\<close> column; the source skips it and applies the English candidate.
\<close>

theorem first_match_counterexample:
  "find (\<lambda>mp. fst ` set mp \<subseteq> set (columns en_frame)) (spec_candidates (Some [])) = Some []
   \<and> select_map (candidate_maps (Some [])) en_frame = Some english_map
   \<and> english_map \<noteq> []
   \<and> finish demo_pandas (rename [] en_frame) = Inl KeyError
   \<and> normalize_ohlcv demo_pandas en_frame (Some []) =
       Inr \<lparr>columns = [''datetime'', ''open'', ''high'', ''low'', ''close'', ''volume''],
            rows = [[Time 1, Numb 30, Numb 31, Numb 29, Numb 30, Numb 300],
                    [Time 2, Numb 20, Numb 21, Numb 19, Numb 20, Numb 200]]\<rparr>"
proof -
  have 1: "find (\<lambda>mp. fst ` set mp \<subseteq> set (columns en_frame)) (spec_candidates (Some [])) = Some []"
    by (simp add: spec_candidates_def)
  have 2: "select_map (candidate_maps (Some [])) en_frame = Some english_map"
    by code_simp
  have 3: "english_map \<noteq> []"
    by (simp add: english_map_def)
  have 4: "finish demo_pandas (rename [] en_frame) = Inl KeyError"
    by code_simp
  have 5: "normalize_ohlcv demo_pandas en_frame (Some []) =
       Inr \<lparr>columns = [''datetime'', ''open'', ''high'', ''low'', ''close'', ''volume''],
            rows = [[Time 1, Numb 30, Numb 31, Numb 29, Numb 30, Numb 300],
                    [Time 2, Numb 20, Numb 21, Numb 19, Numb 20, Numb 200]]\<rparr>"
    by code_simp
  from 1 2 3 4 5 show ?thesis by simp
qed

section \<open>Schema mismatch\<close>

text \<open>
  C2: the normalizer fails with \<open>SchemaMismatch\<close> exactly when no candidate of its list
  has all its keys among the columns of the raw table; the error carries the column list
  of the raw table, and the call returns no table.
\<close>

theorem schema_mismatch_iff:
  "((\<exists>cs. normalize_ohlcv P df mapping = Inl (SchemaMismatch cs)) \<longleftrightarrow>
      (\<forall>mp\<in>set (candidate_maps mapping). \<not> fst ` set mp \<subseteq> set (columns df)))
   \<and> (\<forall>cs. normalize_ohlcv P df mapping = Inl (SchemaMismatch cs) \<longrightarrow> cs = columns df)
   \<and> ((\<forall>mp\<in>set (candidate_maps mapping). \<not> fst ` set mp \<subseteq> set (columns df)) \<longrightarrow>
        normalize_ohlcv P df mapping = Inl (SchemaMismatch (columns df)))"
proof (cases "select_map (candidate_maps mapping) df")
  case None
  then have "\<forall>mp\<in>set (candidate_maps mapping). \<not> fst ` set mp \<subseteq> set (columns df)"
    by (simp add: select_map_None matches_iff)
  with None show ?thesis by (simp add: normalize_ohlcv_def)
next
  case (Some mp)
  then have "\<not> (\<forall>mp\<in>set (candidate_maps mapping). \<not> fst ` set mp \<subseteq> set (columns df))"
    using select_map_None [of "candidate_maps mapping" df] by (simp add: matches_iff)
  with Some show ?thesis by (simp add: normalize_ohlcv_def finish_not_schema)
qed

theorem schema_mismatch_iff_witness:
  "normalize_ohlcv demo_pandas nodate_frame None =
     Inl (SchemaMismatch [''when'', ''open'', ''high'', ''low'', ''close'', ''volume''])
   \<and> normalize_ohlcv demo_pandas en_frame None \<noteq>
     Inl (SchemaMismatch [''date'', ''open'', ''high'', ''low'', ''close'', ''volume''])"
proof -
  have a: "\<forall>mp\<in>set (candidate_maps None). \<not> fst ` set mp \<subseteq> set (columns nodate_frame)"
    by (simp add: candidate_maps_def builtin_maps_def chinese_map_def english_map_def
        nodate_frame_def riqi_def)
  have b: "\<not> (\<forall>mp\<in>set (candidate_maps None). \<not> fst ` set mp \<subseteq> set (columns en_frame))"
    by (simp add: candidate_maps_def builtin_maps_def english_map_def en_frame_def)
  have "(\<forall>mp\<in>set (candidate_maps None). \<not> fst ` set mp \<subseteq> set (columns nodate_frame)) \<longrightarrow>
        normalize_ohlcv demo_pandas nodate_frame None = Inl (SchemaMismatch (columns nodate_frame))"
    using schema_mismatch_iff [of demo_pandas nodate_frame None]
    by (rule conjunct2 [THEN conjunct2])
  with a have 1: "normalize_ohlcv demo_pandas nodate_frame None = Inl (SchemaMismatch (columns nodate_frame))"
    by (rule rev_mp)
  have "(\<exists>cs. normalize_ohlcv demo_pandas en_frame None = Inl (SchemaMismatch cs)) \<longleftrightarrow>
      (\<forall>mp\<in>set (candidate_maps None). \<not> fst ` set mp \<subseteq> set (columns en_frame))"
    using schema_mismatch_iff [of demo_pandas en_frame None]
    by (rule conjunct1)
  with b have "\<not> (\<exists>cs. normalize_ohlcv demo_pandas en_frame None = Inl (SchemaMismatch cs))"
    by (simp only: not_False_eq_True)
  then have 2: "normalize_ohlcv demo_pandas en_frame None \<noteq> Inl (SchemaMismatch (columns en_frame))"
  proof (rule contrapos_nn)
    assume "normalize_ohlcv demo_pandas en_frame None = Inl (SchemaMismatch (columns en_frame))"
    then show "\<exists>cs. normalize_ohlcv demo_pandas en_frame None = Inl (SchemaMismatch cs)"
      by (rule exI)
  qed
  from 1 2 show ?thesis by (simp add: nodate_frame_def en_frame_def)
qed

section \<open>The columns of the output\<close>

text \<open>
  C3, as amended: every table \<open>_normalize_ohlcv\<close> returns has exactly the six columns
  \<open>datetime, open, high, low, close, volume\<close>, in that order, whichever candidate matched
  and whatever other columns the input has. Every table the Tushare \<open>fetch_daily\<close> returns
  has these six labels in that order, each as many times as it labels a column of the
  renamed vendor table; it has exactly the six columns when each of them labels one
  column there.
\<close>

theorem six_columns:
  "(normalize_ohlcv P df mapping = Inr out \<longrightarrow> columns out = use_cols)
   \<and> (fetch_daily P api retry_count = (Inr out', n) \<longrightarrow>
        (\<exists>raw. api (n - 1) = Inr raw
           \<and> columns out' =
               concat (map (\<lambda>l. replicate (count_list (columns (rename tushare_map raw)) l) l) use_cols)
           \<and> ((\<forall>l\<in>set use_cols. count_list (columns (rename tushare_map raw)) l = 1) \<longrightarrow>
                columns out' = use_cols)))"
proof (intro conjI impI)
  assume "normalize_ohlcv P df mapping = Inr out"
  then obtain mp where "finish P (rename mp df) = Inr out"
    using normalize_Inr by blast
  then show "columns out = use_cols" by (rule finish_columns)
next
  assume "fetch_daily P api retry_count = (Inr out', n)"
  then obtain raw where r: "retry_loop api retry_count 0 = (Inr raw, n)"
    and t: "tushare_frame P raw = Inr out'"
    using fetch_daily_Inr by blast
  from retry_loop_Inr [OF r] have a: "api (n - 1) = Inr raw" by simp
  have c: "columns out' =
      concat (map (\<lambda>l. replicate (count_list (columns (rename tushare_map raw)) l) l) use_cols)"
    using tushare_frame_columns [OF t] by (simp add: rename_def)
  have "columns out' = use_cols"
    if "\<forall>l\<in>set use_cols. count_list (columns (rename tushare_map raw)) l = 1"
  proof -
    from that have "list_all (\<lambda>l. count_list (columns (rename tushare_map raw)) l = 1) use_cols"
      by (simp add: list_all_iff)
    from replicate_ones [OF this] c show ?thesis by simp
  qed
  with a c show "\<exists>raw. api (n - 1) = Inr raw
           \<and> columns out' =
               concat (map (\<lambda>l. replicate (count_list (columns (rename tushare_map raw)) l) l) use_cols)
           \<and> ((\<forall>l\<in>set use_cols. count_list (columns (rename tushare_map raw)) l = 1) \<longrightarrow>
                columns out' = use_cols)"
    by blast
qed

theorem six_columns_witness:
  "normalize_ohlcv demo_pandas cn_frame None =
     Inr \<lparr>columns = [''datetime'', ''open'', ''high'', ''low'', ''close'', ''volume''],
          rows = [[Time 1, Numb 30, Numb 31, Numb 29, Flt 30, Numb 300],
                  [Time 2, Numb 20, Numb 21, Numb 19, Flt 20, Numb 200],
                  [Time 3, Numb 10, Numb 11, Numb 9, NaN, Numb 100]]\<rparr>
   \<and> fetch_daily demo_pandas flaky_api 3 =
     (Inr \<lparr>columns = [''datetime'', ''open'', ''high'', ''low'', ''close'', ''volume''],
           rows = [[Time 2, Numb 20, Numb 21, Numb 19, Numb 20, Numb 200],
                   [Time 3, Numb 10, Numb 11, Numb 9, Numb 10, Numb 100]]\<rparr>, 2)
   \<and> flaky_api (2 - 1) = Inr ts_frame
   \<and> list_all (\<lambda>l. count_list (columns (rename tushare_map ts_frame)) l = 1) use_cols"
proof -
  let ?a = "\<lparr>columns = [''datetime'', ''open'', ''high'', ''low'', ''close'', ''volume''],
          rows = [[Time 1, Numb 30, Numb 31, Numb 29, Flt 30, Numb 300],
                  [Time 2, Numb 20, Numb 21, Numb 19, Flt 20, Numb 200],
                  [Time 3, Numb 10, Numb 11, Numb 9, NaN, Numb 100]]\<rparr>"
  let ?b = "\<lparr>columns = [''datetime'', ''open'', ''high'', ''low'', ''close'', ''volume''],
           rows = [[Time 2, Numb 20, Numb 21, Numb 19, Numb 20, Numb 200],
                   [Time 3, Numb 10, Numb 11, Numb 9, Numb 10, Numb 100]]\<rparr>"
  have a: "normalize_ohlcv demo_pandas cn_frame None = Inr ?a"
    by code_simp
  have b: "fetch_daily demo_pandas flaky_api 3 = (Inr ?b, 2)"
    by code_simp
  have c: "flaky_api (2 - 1) = Inr ts_frame"
    by (simp add: flaky_api_def)
  have d: "list_all (\<lambda>l. count_list (columns (rename tushare_map ts_frame)) l = 1) use_cols"
    by code_simp
  have "normalize_ohlcv demo_pandas cn_frame None = Inr ?a \<longrightarrow> columns ?a = use_cols"
    using six_columns [of demo_pandas cn_frame None ?a flaky_api 3 ?b 2]
    by (rule conjunct1)
  with a b c d show ?thesis by simp
qed

text \<open>
  C3 as stated fails on the Tushare path: a vendor table with a \<open>volume\<close> column beside
  \<open>vol\<close> has two \<open>volume\<close> columns once renamed, the selection keeps both, and nothing
  after it rejects the frame; the table returned has seven columns.
\<close>

theorem six_columns_counterexample:
  "fetch_daily demo_pandas dup_api 3 =
     (Inr \<lparr>columns = [''datetime'', ''open'', ''high'', ''low'', ''close'', ''volume'', ''volume''],
           rows = [[Time 1, Numb 30, Numb 31, Numb 29, Numb 30, Numb 300, Numb 8],
                   [Time 2, Numb 20, Numb 21, Numb 19, Numb 20, Numb 200, Numb 7]]\<rparr>, 1)
   \<and> [''datetime'', ''open'', ''high'', ''low'', ''close'', ''volume'', ''volume''] \<noteq> use_cols
   \<and> wf_frame dup_frame"
proof -
  have 1: "fetch_daily demo_pandas dup_api 3 =
     (Inr \<lparr>columns = [''datetime'', ''open'', ''high'', ''low'', ''close'', ''volume'', ''volume''],
           rows = [[Time 1, Numb 30, Numb 31, Numb 29, Numb 30, Numb 300, Numb 8],
                   [Time 2, Numb 20, Numb 21, Numb 19, Numb 20, Numb 200, Numb 7]]\<rparr>, 1)"
    by code_simp
  have 2: "[''datetime'', ''open'', ''high'', ''low'', ''close'', ''volume'', ''volume''] \<noteq> use_cols"
    by (simp add: use_cols_def)
  have 3: "wf_frame dup_frame"
    by (simp add: wf_frame_def dup_frame_def)
  from 1 2 3 show ?thesis by simp
qed

section \<open>Tables that are canonical already\<close>

text \<open>
  C5, as amended: a table whose columns are exactly \<open>datetime, open, high, low, close,
  volume\<close> fails with \<open>SchemaMismatch\<close> when no custom mapping is given, because no
  built-in candidate has \<open>datetime\<close> among its keys. Given the mapping of the six canonical
  names to themselves as custom mapping, normalizing it succeeds when \<open>pd.to_datetime\<close>
  accepts its date column, and returns the same columns with the rows retyped, column
  by column, and sorted; when \<open>pd.to_datetime\<close> raises on the date column, it fails with
  \<open>DateTimeParseError\<close>.
\<close>

theorem canonical_table:
  "(columns df = use_cols \<longrightarrow> normalize_ohlcv P df None = Inl (SchemaMismatch use_cols))
   \<and> (columns df = use_cols \<and> wf_frame df \<longrightarrow>
        normalize_ohlcv P df (Some identity_map) =
          (case to_datetime P (column 0 (rows df)) of
             None \<Rightarrow> Inl DateTimeParseError
           | Some ts \<Rightarrow>
               Inr \<lparr>columns = use_cols, rows = sort_rows P 0 (retype_rows P (rows df))\<rparr>))"
proof (intro conjI impI)
  assume "columns df = use_cols"
  then show "normalize_ohlcv P df None = Inl (SchemaMismatch use_cols)"
    by (simp add: normalize_ohlcv_def candidate_maps_def builtin_not_canonical)
next
  assume a: "columns df = use_cols \<and> wf_frame df"
  have ne: "identity_map \<noteq> []"
    by (simp add: identity_map_def use_cols_def)
  from a have "matches identity_map df"
    by (simp add: matches_def identity_map_def use_cols_def)
  with ne have s: "select_map (candidate_maps (Some identity_map)) df = Some identity_map"
    by (simp add: candidate_maps_def)
  from a have one: "list_all (\<lambda>c. count_list (columns (rename identity_map df)) c = 1) use_cols"
    by (simp add: rename_identity) (simp add: use_cols_def)
  from a have "selected_cells identity_map df = rows df"
    by (simp add: selected_cells_canonical)
  with normalize_unique [OF s one, of P]
  show "normalize_ohlcv P df (Some identity_map) =
          (case to_datetime P (column 0 (rows df)) of
             None \<Rightarrow> Inl DateTimeParseError
           | Some ts \<Rightarrow>
               Inr \<lparr>columns = use_cols, rows = sort_rows P 0 (retype_rows P (rows df))\<rparr>)"
    by (simp cong: option.case_cong)
qed

theorem canonical_table_witness:
  "normalize_ohlcv demo_pandas canon_frame None =
     Inl (SchemaMismatch [''datetime'', ''open'', ''high'', ''low'', ''close'', ''volume''])
   \<and> to_datetime demo_pandas (column 0 (rows canon_frame)) = Some [Time 2, Time 1]
   \<and> normalize_ohlcv demo_pandas canon_frame (Some identity_map) =
     Inr \<lparr>columns = [''datetime'', ''open'', ''high'', ''low'', ''close'', ''volume''],
          rows = [[Time 1, Numb 30, Numb 31, Numb 29, Flt 30, Numb 300],
                  [Time 2, Numb 20, Numb 21, Numb 19, NaN, Numb 200]]\<rparr>"
proof -
  have c: "columns canon_frame = use_cols"
    by (simp add: canon_frame_def use_cols_def)
  have w: "wf_frame canon_frame"
    by (simp add: canon_frame_def wf_frame_def)
  have p: "to_datetime demo_pandas (column 0 (rows canon_frame)) = Some [Time 2, Time 1]"
    by (simp add: canon_frame_def demo_pandas_def demo_to_datetime_def column_def)
  have r: "sort_rows demo_pandas 0 (retype_rows demo_pandas (rows canon_frame))
      = [[Time 1, Numb 30, Numb 31, Numb 29, Flt 30, Numb 300],
         [Time 2, Numb 20, Numb 21, Numb 19, NaN, Numb 200]]"
    by code_simp
  have 1: "normalize_ohlcv demo_pandas canon_frame None = Inl (SchemaMismatch use_cols)"
    using canonical_table [of canon_frame demo_pandas] c by (simp only:)
  have 2: "normalize_ohlcv demo_pandas canon_frame (Some identity_map) =
      Inr \<lparr>columns = use_cols,
           rows = sort_rows demo_pandas 0 (retype_rows demo_pandas (rows canon_frame))\<rparr>"
    using canonical_table [of canon_frame demo_pandas] c w p by (simp only: simp_thms option.case)
  from 1 2 p r show ?thesis by (simp add: use_cols_def)
qed

text \<open>
  C5 as stated fails: the English built-in candidate expects the date column under the
  name \<open>date\<close>, so a canonical table matches no candidate.
\<close>

theorem canonical_table_counterexample:
  "columns canon_frame = [''datetime'', ''open'', ''high'', ''low'', ''close'', ''volume'']
   \<and> wf_frame canon_frame
   \<and> normalize_ohlcv demo_pandas canon_frame None =
       Inl (SchemaMismatch [''datetime'', ''open'', ''high'', ''low'', ''close'', ''volume''])"
proof -
  have 1: "columns canon_frame = [''datetime'', ''open'', ''high'', ''low'', ''close'', ''volume'']"
    by (simp add: canon_frame_def)
  have 2: "wf_frame canon_frame"
    by (simp add: canon_frame_def wf_frame_def)
  have 3: "normalize_ohlcv demo_pandas canon_frame None =
       Inl (SchemaMismatch [''datetime'', ''open'', ''high'', ''low'', ''close'', ''volume''])"
    by code_simp
  from 1 2 3 show ?thesis by simp
qed

section \<open>Tolerance of unparseable numbers\<close>




section \<open>Ordering of the output\<close>

text \<open>
  C4: in every table that normalization returns, by \<open>_normalize_ohlcv\<close> or by the
  Tushare \<open>fetch_daily\<close>, the first column is \<open>datetime\<close> and for every adjacent pair
  of rows the timestamp of the first is at most the timestamp of the second, whatever
  the order of the input rows.
\<close>

theorem output_ascending:
  "(normalize_ohlcv P df mapping = Inr out \<longrightarrow>
      columns out ! 0 = ''datetime'' \<and>
      (\<forall>i. Suc i < length (rows out) \<longrightarrow>
           rank P (rows out ! i ! 0) \<le> rank P (rows out ! Suc i ! 0)))
   \<and> (fetch_daily P api retry_count = (Inr out', n) \<longrightarrow>
      columns out' ! 0 = ''datetime'' \<and>
      (\<forall>i. Suc i < length (rows out') \<longrightarrow>
           rank P (rows out' ! i ! 0) \<le> rank P (rows out' ! Suc i ! 0)))"
proof (intro conjI impI allI)
  assume a: "normalize_ohlcv P df mapping = Inr out"
  then obtain mp where f: "finish P (rename mp df) = Inr out"
    using normalize_Inr by blast
  from finish_columns [OF f] show "columns out ! 0 = ''datetime''"
    by (simp add: use_cols_def)
  fix i assume "Suc i < length (rows out)"
  with finish_sorted [OF f] show "rank P (rows out ! i ! 0) \<le> rank P (rows out ! Suc i ! 0)"
    by (rule adjacent_sorted)
next
  assume a: "fetch_daily P api retry_count = (Inr out', n)"
  then obtain d where t: "tushare_frame P d = Inr out'"
    using fetch_daily_Inr by blast
  from tushare_frame_Inr [OF t] obtain j where "locs ''datetime'' (columns (rename tushare_map d)) = [j]"
    by blast
  then have "count_list (map (rename_label tushare_map) (columns d)) ''datetime'' = 1"
    using length_locs [of "''datetime''" "columns (rename tushare_map d)"] by (simp add: rename_def)
  with tushare_frame_columns [OF t] show "columns out' ! 0 = ''datetime''"
    by (simp add: use_cols_def)
  fix i assume "Suc i < length (rows out')"
  with tushare_frame_sorted [OF t] show "rank P (rows out' ! i ! 0) \<le> rank P (rows out' ! Suc i ! 0)"
    by (rule adjacent_sorted)
qed


theorem output_ascending_witness:
  "normalize_ohlcv demo_pandas cn_frame None =
     Inr \<lparr>columns = [''datetime'', ''open'', ''high'', ''low'', ''close'', ''volume''],
          rows = [[Time 1, Numb 30, Numb 31, Numb 29, Flt 30, Numb 300],
                  [Time 2, Numb 20, Numb 21, Numb 19, Flt 20, Numb 200],
                  [Time 3, Numb 10, Numb 11, Numb 9, NaN, Numb 100]]\<rparr>
   \<and> fetch_daily demo_pandas flaky_api 3 =
     (Inr \<lparr>columns = [''datetime'', ''open'', ''high'', ''low'', ''close'', ''volume''],
           rows = [[Time 2, Numb 20, Numb 21, Numb 19, Numb 20, Numb 200],
                   [Time 3, Numb 10, Numb 11, Numb 9, Numb 10, Numb 100]]\<rparr>, 2)
   \<and> demo_rank (Time 1) \<le> demo_rank (Time 2) \<and> demo_rank (Time 2) \<le> demo_rank (Time 3)"
proof -
  let ?a = "\<lparr>columns = [''datetime'', ''open'', ''high'', ''low'', ''close'', ''volume''],
          rows = [[Time 1, Numb 30, Numb 31, Numb 29, Flt 30, Numb 300],
                  [Time 2, Numb 20, Numb 21, Numb 19, Flt 20, Numb 200],
                  [Time 3, Numb 10, Numb 11, Numb 9, NaN, Numb 100]]\<rparr>"
  let ?b = "\<lparr>columns = [''datetime'', ''open'', ''high'', ''low'', ''close'', ''volume''],
           rows = [[Time 2, Numb 20, Numb 21, Numb 19, Numb 20, Numb 200],
                   [Time 3, Numb 10, Numb 11, Numb 9, Numb 10, Numb 100]]\<rparr>"
  have a: "normalize_ohlcv demo_pandas cn_frame None = Inr ?a"
    by code_simp
  have b: "fetch_daily demo_pandas flaky_api 3 = (Inr ?b, 2)"
    by code_simp
  from output_ascending [of demo_pandas cn_frame None ?a flaky_api 3 ?b 2] a b
  show ?thesis by simp
qed

section \<open>Unparseable dates\<close>

text \<open>
  C7, as amended: when a raw table matches a candidate and \<open>pd.to_datetime\<close> fails on a
  column that the candidate names \<open>datetime\<close>, because a value in it does not parse, the
  whole call fails and returns no table. The failure is \<open>DateTimeParseError\<close> when the
  renamed table has all six canonical columns and \<open>datetime\<close> only once; with a built-in
  candidate the six columns are always there. It is the \<open>KeyError\<close> of the selection,
  raised before any date is parsed, when a canonical column is missing, and the error of
  \<open>pd.to_datetime\<close> on a repeated label when \<open>datetime\<close> labels several columns.
\<close>

theorem datetime_failure:
  "select_map (candidate_maps mapping) df = Some mp
     \<and> i \<in> set (locs ''datetime'' (columns (rename mp df)))
     \<and> to_datetime P (column i (rows df)) = None \<longrightarrow>
   (\<exists>e. normalize_ohlcv P df mapping = Inl e)
   \<and> normalize_ohlcv P df mapping =
       (if \<not> list_all (\<lambda>l. l \<in> set (columns (rename mp df))) use_cols then Inl KeyError
        else if locs ''datetime'' (columns (rename mp df)) = [i] then Inl DateTimeParseError
        else Inl DuplicateKeys)
   \<and> (mp \<in> set builtin_maps \<and> locs ''datetime'' (columns (rename mp df)) = [i] \<longrightarrow>
        normalize_ohlcv P df mapping = Inl DateTimeParseError)"
proof (intro impI)
  assume a: "select_map (candidate_maps mapping) df = Some mp
     \<and> i \<in> set (locs ''datetime'' (columns (rename mp df)))
     \<and> to_datetime P (column i (rows df)) = None"
  then have s: "select_map (candidate_maps mapping) df = Some mp"
    and i: "i \<in> set (locs ''datetime'' (columns (rename mp df)))"
    and bad: "to_datetime P (column i (rows (rename mp df))) = None"
    by (simp_all add: rename_def)
  have n: "normalize_ohlcv P df mapping = finish P (rename mp df)"
    using s by (simp add: normalize_ohlcv_def)
  have f: "normalize_ohlcv P df mapping =
       (if \<not> list_all (\<lambda>l. l \<in> set (columns (rename mp df))) use_cols then Inl KeyError
        else if locs ''datetime'' (columns (rename mp df)) = [i] then Inl DateTimeParseError
        else Inl DuplicateKeys)"
    unfolding n by (rule finish_bad_date [OF i bad])
  then have e: "\<exists>e. normalize_ohlcv P df mapping = Inl e"
    by (simp split: if_splits)
  have b: "normalize_ohlcv P df mapping = Inl DateTimeParseError"
    if "mp \<in> set builtin_maps \<and> locs ''datetime'' (columns (rename mp df)) = [i]"
  proof -
    from that builtin_covers [OF _ select_map_matches [OF s]]
    have "list_all (\<lambda>l. l \<in> set (columns (rename mp df))) use_cols" by blast
    with that f show ?thesis by simp
  qed
  from e f b show "(\<exists>e. normalize_ohlcv P df mapping = Inl e)
   \<and> normalize_ohlcv P df mapping =
       (if \<not> list_all (\<lambda>l. l \<in> set (columns (rename mp df))) use_cols then Inl KeyError
        else if locs ''datetime'' (columns (rename mp df)) = [i] then Inl DateTimeParseError
        else Inl DuplicateKeys)
   \<and> (mp \<in> set builtin_maps \<and> locs ''datetime'' (columns (rename mp df)) = [i] \<longrightarrow>
        normalize_ohlcv P df mapping = Inl DateTimeParseError)"
    by (intro conjI impI)
qed

theorem datetime_failure_witness:
  "select_map (candidate_maps None) bad_date_frame = Some english_map
   \<and> locs ''datetime'' (columns (rename english_map bad_date_frame)) = [0]
   \<and> column 0 (rows bad_date_frame) = [Numb 2, Text ''n/a'']
   \<and> to_datetime demo_pandas [Numb 2, Text ''n/a''] = None
   \<and> normalize_ohlcv demo_pandas bad_date_frame None = Inl DateTimeParseError"
proof -
  have s: "select_map (candidate_maps None) bad_date_frame = Some english_map"
    by code_simp
  have l: "locs ''datetime'' (columns (rename english_map bad_date_frame)) = [0]"
    by code_simp
  have c: "column 0 (rows bad_date_frame) = [Numb 2, Text ''n/a'']"
    by (simp add: bad_date_frame_def column_def)
  have bad: "to_datetime demo_pandas [Numb 2, Text ''n/a''] = None"
    by (simp add: demo_pandas_def demo_to_datetime_def)
  have b: "english_map \<in> set builtin_maps"
    by (simp add: builtin_maps_def)
  have i: "0 \<in> set (locs ''datetime'' (columns (rename english_map bad_date_frame)))"
    by (simp only: l) simp
  have h: "select_map (candidate_maps None) bad_date_frame = Some english_map
     \<and> 0 \<in> set (locs ''datetime'' (columns (rename english_map bad_date_frame)))
     \<and> to_datetime demo_pandas (column 0 (rows bad_date_frame)) = None"
    using s i bad by (simp only: c simp_thms)
  have "english_map \<in> set builtin_maps
      \<and> locs ''datetime'' (columns (rename english_map bad_date_frame)) = [0] \<longrightarrow>
        normalize_ohlcv demo_pandas bad_date_frame None = Inl DateTimeParseError"
    using datetime_failure [of None bad_date_frame english_map 0 demo_pandas, THEN mp, OF h]
    by (rule conjunct2 [THEN conjunct2])
  with b l have "normalize_ohlcv demo_pandas bad_date_frame None = Inl DateTimeParseError"
    by blast
  with s l c bad show ?thesis by (simp only: simp_thms)
qed

text \<open>
  C7 as stated fails for a custom mapping that does not produce all six canonical
  columns: the table matches it, its date does not parse, and the call fails with the
  \<open>KeyError\<close> of line 47, which comes before the parse of line 48.
\<close>

theorem datetime_failure_counterexample:
  "select_map (candidate_maps (Some date_only_map)) d_frame = Some date_only_map
   \<and> locs ''datetime'' (columns (rename date_only_map d_frame)) = [0]
   \<and> column 0 (rows d_frame) = [Text ''bad'']
   \<and> to_datetime demo_pandas [Text ''bad''] = None
   \<and> normalize_ohlcv demo_pandas d_frame (Some date_only_map) = Inl KeyError
   \<and> KeyError \<noteq> DateTimeParseError"
proof -
  have 1: "select_map (candidate_maps (Some date_only_map)) d_frame = Some date_only_map"
    by code_simp
  have 2: "locs ''datetime'' (columns (rename date_only_map d_frame)) = [0]"
    by code_simp
  have 3: "column 0 (rows d_frame) = [Text ''bad'']"
    by (simp add: d_frame_def column_def)
  have 4: "to_datetime demo_pandas [Text ''bad''] = None"
    by (simp add: demo_pandas_def demo_to_datetime_def)
  have 5: "normalize_ohlcv demo_pandas d_frame (Some date_only_map) = Inl KeyError"
    by code_simp
  from 1 2 3 4 5 show ?thesis by simp
qed

section \<open>Rows of equal timestamp\<close>

text \<open>
  C8, as amended: the rows of the output that have a given timestamp are the retyped
  input rows of that timestamp, each exactly once, in the order the argsort of the
  library leaves rows of equal key in. The source calls \<open>sort_values\<close> with its default
  kind, which pandas documents as not stable, so this order is not fixed by the
  normalizer; it is the input order when the argsort is the stable one. When the
  argsort puts the keys in ascending order, as every argsort does, the output is the
  rows in exactly its order.
\<close>

theorem ties_kept:
  "normalize_ohlcv P df mapping = Inr out \<longrightarrow>
     (\<exists>mp. select_map (candidate_maps mapping) df = Some mp
        \<and> (\<forall>k. mset (filter (\<lambda>r. rank P (r ! 0) = k) (rows out))
               = mset (filter (\<lambda>r. rank P (r ! 0) = k) (retype_rows P (selected_cells mp df))))
        \<and> (\<forall>k. filter (\<lambda>r. rank P (r ! 0) = k) (rows out)
               = filter (\<lambda>r. rank P (r ! 0) = k)
                   (arrange (tie P (map (\<lambda>r. rank P (r ! 0)) (retype_rows P (selected_cells mp df))))
                      (retype_rows P (selected_cells mp df))))
        \<and> (tie P (map (\<lambda>r. rank P (r ! 0)) (retype_rows P (selected_cells mp df)))
              = stable_order (map (\<lambda>r. rank P (r ! 0)) (retype_rows P (selected_cells mp df))) \<longrightarrow>
             (\<forall>k. filter (\<lambda>r. rank P (r ! 0) = k) (rows out)
                = filter (\<lambda>r. rank P (r ! 0) = k) (retype_rows P (selected_cells mp df))))
        \<and> (sorted (map (\<lambda>r. rank P (r ! 0))
              (arrange (tie P (map (\<lambda>r. rank P (r ! 0)) (retype_rows P (selected_cells mp df))))
                 (retype_rows P (selected_cells mp df)))) \<longrightarrow>
             rows out =
               arrange (tie P (map (\<lambda>r. rank P (r ! 0)) (retype_rows P (selected_cells mp df))))
                 (retype_rows P (selected_cells mp df))))"
proof
  assume a: "normalize_ohlcv P df mapping = Inr out"
  from normalize_Inr_cells [OF a] obtain mp where
    s: "select_map (candidate_maps mapping) df = Some mp"
    and out: "out = \<lparr>columns = use_cols, rows = sort_rows P 0 (retype_rows P (selected_cells mp df))\<rparr>"
    by blast
  let ?X = "retype_rows P (selected_cells mp df)"
  let ?keys = "map (\<lambda>r. rank P (r ! 0)) ?X"
  have r: "rows out = sort_rows P 0 ?X"
    by (simp add: out)
  have m: "mset (filter (\<lambda>r. rank P (r ! 0) = k) (rows out))
      = mset (filter (\<lambda>r. rank P (r ! 0) = k) ?X)" for k
    by (simp add: r mset_sort_rows)
  have f: "filter (\<lambda>r. rank P (r ! 0) = k) (rows out)
      = filter (\<lambda>r. rank P (r ! 0) = k) (arrange (tie P ?keys) ?X)" for k
    unfolding r by (rule sort_rows_ties)
  have e: "filter (\<lambda>r. rank P (r ! 0) = k) (rows out) = filter (\<lambda>r. rank P (r ! 0) = k) ?X"
    if "tie P ?keys = stable_order ?keys" for k
    unfolding r sort_rows_stable [OF that] by (rule sort_key_stable)
  have g: "rows out = arrange (tie P ?keys) ?X"
    if "sorted (map (\<lambda>r. rank P (r ! 0)) (arrange (tie P ?keys) ?X))"
    unfolding r using that by (rule sort_rows_argsort)
  from s m f e g show "\<exists>mp. select_map (candidate_maps mapping) df = Some mp
        \<and> (\<forall>k. mset (filter (\<lambda>r. rank P (r ! 0) = k) (rows out))
               = mset (filter (\<lambda>r. rank P (r ! 0) = k) (retype_rows P (selected_cells mp df))))
        \<and> (\<forall>k. filter (\<lambda>r. rank P (r ! 0) = k) (rows out)
               = filter (\<lambda>r. rank P (r ! 0) = k)
                   (arrange (tie P (map (\<lambda>r. rank P (r ! 0)) (retype_rows P (selected_cells mp df))))
                      (retype_rows P (selected_cells mp df))))
        \<and> (tie P (map (\<lambda>r. rank P (r ! 0)) (retype_rows P (selected_cells mp df)))
              = stable_order (map (\<lambda>r. rank P (r ! 0)) (retype_rows P (selected_cells mp df))) \<longrightarrow>
             (\<forall>k. filter (\<lambda>r. rank P (r ! 0) = k) (rows out)
                = filter (\<lambda>r. rank P (r ! 0) = k) (retype_rows P (selected_cells mp df))))
        \<and> (sorted (map (\<lambda>r. rank P (r ! 0))
              (arrange (tie P (map (\<lambda>r. rank P (r ! 0)) (retype_rows P (selected_cells mp df))))
                 (retype_rows P (selected_cells mp df)))) \<longrightarrow>
             rows out =
               arrange (tie P (map (\<lambda>r. rank P (r ! 0)) (retype_rows P (selected_cells mp df))))
                 (retype_rows P (selected_cells mp df)))"
    by blast
qed

theorem ties_kept_witness:
  "normalize_ohlcv demo_quicksort tie_frame None =
     Inr \<lparr>columns = [''datetime'', ''open'', ''high'', ''low'', ''close'', ''volume''],
          rows = [[Time 5, Numb 1, Numb 1, Numb 1, Numb 1, Numb 1],
                  [Time 5, Numb 2, Numb 2, Numb 2, Numb 2, Numb 2]]\<rparr>
   \<and> select_map (candidate_maps None) tie_frame = Some english_map
   \<and> tie demo_quicksort [(False, 5), (False, 5)] = stable_order [(False, 5), (False, 5 :: int)]
   \<and> filter (\<lambda>r. rank demo_quicksort (r ! 0) = (False, 5))
        [[Time 5, Numb 1, Numb 1, Numb 1, Numb 1, Numb 1],
         [Time 5, Numb 2, Numb 2, Numb 2, Numb 2, Numb 2]]
      = filter (\<lambda>r. rank demo_quicksort (r ! 0) = (False, 5))
          (retype_rows demo_quicksort (selected_cells english_map tie_frame))"
proof -
  let ?a = "\<lparr>columns = [''datetime'', ''open'', ''high'', ''low'', ''close'', ''volume''],
          rows = [[Time 5, Numb 1, Numb 1, Numb 1, Numb 1, Numb 1],
                  [Time 5, Numb 2, Numb 2, Numb 2, Numb 2, Numb 2]]\<rparr>"
  let ?X = "retype_rows demo_quicksort (selected_cells english_map tie_frame)"
  have a: "normalize_ohlcv demo_quicksort tie_frame None = Inr ?a"
    by code_simp
  have e: "select_map (candidate_maps None) tie_frame = Some english_map"
    by code_simp
  have k: "map (\<lambda>r. rank demo_quicksort (r ! 0)) ?X = [(False, 5), (False, 5)]"
    by code_simp
  have t: "tie demo_quicksort [(False, 5), (False, 5)] = stable_order [(False, 5), (False, 5 :: int)]"
    by code_simp
  from ties_kept [of demo_quicksort tie_frame None ?a, THEN mp, OF a]
  obtain mp where s: "select_map (candidate_maps None) tie_frame = Some mp"
    and c: "tie demo_quicksort (map (\<lambda>r. rank demo_quicksort (r ! 0)) (retype_rows demo_quicksort (selected_cells mp tie_frame)))
              = stable_order (map (\<lambda>r. rank demo_quicksort (r ! 0)) (retype_rows demo_quicksort (selected_cells mp tie_frame))) \<longrightarrow>
             (\<forall>k. filter (\<lambda>r. rank demo_quicksort (r ! 0) = k) (rows ?a)
                = filter (\<lambda>r. rank demo_quicksort (r ! 0) = k) (retype_rows demo_quicksort (selected_cells mp tie_frame)))"
    by blast
  from s e have eq: "mp = english_map" by simp
  from c t have "\<forall>k. filter (\<lambda>r. rank demo_quicksort (r ! 0) = k) (rows ?a)
                = filter (\<lambda>r. rank demo_quicksort (r ! 0) = k) ?X"
    unfolding eq k by (rule mp)
  then have "filter (\<lambda>r. rank demo_quicksort (r ! 0) = (False, 5)) (rows ?a)
                = filter (\<lambda>r. rank demo_quicksort (r ! 0) = (False, 5)) ?X"
    by (rule spec)
  with a e t show ?thesis by simp
qed

text \<open>
  C8 as stated fails. The argsort of numpy for the default kind sorts a short segment by
  insertion and partitions a longer one, and the partition moves equal keys past each
  other: eighteen input rows of one date do not come out in their input order.
\<close>

theorem ties_kept_counterexample:
  "rows tie18_frame =
     [[Numb 5, Numb 1, Numb 1, Numb 1, Numb 1, Numb 1],
      [Numb 5, Numb 2, Numb 2, Numb 2, Numb 2, Numb 2],
      [Numb 5, Numb 3, Numb 3, Numb 3, Numb 3, Numb 3],
      [Numb 5, Numb 4, Numb 4, Numb 4, Numb 4, Numb 4],
      [Numb 5, Numb 5, Numb 5, Numb 5, Numb 5, Numb 5],
      [Numb 5, Numb 6, Numb 6, Numb 6, Numb 6, Numb 6],
      [Numb 5, Numb 7, Numb 7, Numb 7, Numb 7, Numb 7],
      [Numb 5, Numb 8, Numb 8, Numb 8, Numb 8, Numb 8],
      [Numb 5, Numb 9, Numb 9, Numb 9, Numb 9, Numb 9],
      [Numb 5, Numb 10, Numb 10, Numb 10, Numb 10, Numb 10],
      [Numb 5, Numb 11, Numb 11, Numb 11, Numb 11, Numb 11],
      [Numb 5, Numb 12, Numb 12, Numb 12, Numb 12, Numb 12],
      [Numb 5, Numb 13, Numb 13, Numb 13, Numb 13, Numb 13],
      [Numb 5, Numb 14, Numb 14, Numb 14, Numb 14, Numb 14],
      [Numb 5, Numb 15, Numb 15, Numb 15, Numb 15, Numb 15],
      [Numb 5, Numb 16, Numb 16, Numb 16, Numb 16, Numb 16],
      [Numb 5, Numb 17, Numb 17, Numb 17, Numb 17, Numb 17],
      [Numb 5, Numb 18, Numb 18, Numb 18, Numb 18, Numb 18]]
   \<and> (\<exists>out. normalize_ohlcv demo_quicksort tie18_frame None = Inr out
        \<and> length (rows out) = 18
        \<and> rows out \<noteq>
            [[Time 5, Numb 1, Numb 1, Numb 1, Numb 1, Numb 1],
             [Time 5, Numb 2, Numb 2, Numb 2, Numb 2, Numb 2],
             [Time 5, Numb 3, Numb 3, Numb 3, Numb 3, Numb 3],
             [Time 5, Numb 4, Numb 4, Numb 4, Numb 4, Numb 4],
             [Time 5, Numb 5, Numb 5, Numb 5, Numb 5, Numb 5],
             [Time 5, Numb 6, Numb 6, Numb 6, Numb 6, Numb 6],
             [Time 5, Numb 7, Numb 7, Numb 7, Numb 7, Numb 7],
             [Time 5, Numb 8, Numb 8, Numb 8, Numb 8, Numb 8],
             [Time 5, Numb 9, Numb 9, Numb 9, Numb 9, Numb 9],
             [Time 5, Numb 10, Numb 10, Numb 10, Numb 10, Numb 10],
             [Time 5, Numb 11, Numb 11, Numb 11, Numb 11, Numb 11],
             [Time 5, Numb 12, Numb 12, Numb 12, Numb 12, Numb 12],
             [Time 5, Numb 13, Numb 13, Numb 13, Numb 13, Numb 13],
             [Time 5, Numb 14, Numb 14, Numb 14, Numb 14, Numb 14],
             [Time 5, Numb 15, Numb 15, Numb 15, Numb 15, Numb 15],
             [Time 5, Numb 16, Numb 16, Numb 16, Numb 16, Numb 16],
             [Time 5, Numb 17, Numb 17, Numb 17, Numb 17, Numb 17],
             [Time 5, Numb 18, Numb 18, Numb 18, Numb 18, Numb 18]])"
proof -
  let ?out = "\<lparr>columns = [''datetime'', ''open'', ''high'', ''low'', ''close'', ''volume''],
          rows = [[Time 5, Numb 1, Numb 1, Numb 1, Numb 1, Numb 1],
                  [Time 5, Numb 16, Numb 16, Numb 16, Numb 16, Numb 16],
                  [Time 5, Numb 15, Numb 15, Numb 15, Numb 15, Numb 15],
                  [Time 5, Numb 14, Numb 14, Numb 14, Numb 14, Numb 14],
                  [Time 5, Numb 13, Numb 13, Numb 13, Numb 13, Numb 13],
                  [Time 5, Numb 12, Numb 12, Numb 12, Numb 12, Numb 12],
                  [Time 5, Numb 11, Numb 11, Numb 11, Numb 11, Numb 11],
                  [Time 5, Numb 10, Numb 10, Numb 10, Numb 10, Numb 10],
                  [Time 5, Numb 9, Numb 9, Numb 9, Numb 9, Numb 9],
                  [Time 5, Numb 8, Numb 8, Numb 8, Numb 8, Numb 8],
                  [Time 5, Numb 7, Numb 7, Numb 7, Numb 7, Numb 7],
                  [Time 5, Numb 6, Numb 6, Numb 6, Numb 6, Numb 6],
                  [Time 5, Numb 5, Numb 5, Numb 5, Numb 5, Numb 5],
                  [Time 5, Numb 4, Numb 4, Numb 4, Numb 4, Numb 4],
                  [Time 5, Numb 3, Numb 3, Numb 3, Numb 3, Numb 3],
                  [Time 5, Numb 2, Numb 2, Numb 2, Numb 2, Numb 2],
                  [Time 5, Numb 17, Numb 17, Numb 17, Numb 17, Numb 17],
                  [Time 5, Numb 18, Numb 18, Numb 18, Numb 18, Numb 18]]\<rparr>"
  have 1: "rows tie18_frame =
     [[Numb 5, Numb 1, Numb 1, Numb 1, Numb 1, Numb 1],
      [Numb 5, Numb 2, Numb 2, Numb 2, Numb 2, Numb 2],
      [Numb 5, Numb 3, Numb 3, Numb 3, Numb 3, Numb 3],
      [Numb 5, Numb 4, Numb 4, Numb 4, Numb 4, Numb 4],
      [Numb 5, Numb 5, Numb 5, Numb 5, Numb 5, Numb 5],
      [Numb 5, Numb 6, Numb 6, Numb 6, Numb 6, Numb 6],
      [Numb 5, Numb 7, Numb 7, Numb 7, Numb 7, Numb 7],
      [Numb 5, Numb 8, Numb 8, Numb 8, Numb 8, Numb 8],
      [Numb 5, Numb 9, Numb 9, Numb 9, Numb 9, Numb 9],
      [Numb 5, Numb 10, Numb 10, Numb 10, Numb 10, Numb 10],
      [Numb 5, Numb 11, Numb 11, Numb 11, Numb 11, Numb 11],
      [Numb 5, Numb 12, Numb 12, Numb 12, Numb 12, Numb 12],
      [Numb 5, Numb 13, Numb 13, Numb 13, Numb 13, Numb 13],
      [Numb 5, Numb 14, Numb 14, Numb 14, Numb 14, Numb 14],
      [Numb 5, Numb 15, Numb 15, Numb 15, Numb 15, Numb 15],
      [Numb 5, Numb 16, Numb 16, Numb 16, Numb 16, Numb 16],
      [Numb 5, Numb 17, Numb 17, Numb 17, Numb 17, Numb 17],
      [Numb 5, Numb 18, Numb 18, Numb 18, Numb 18, Numb 18]]"
    by (simp add: tie18_frame_def)
  have 2: "normalize_ohlcv demo_quicksort tie18_frame None = Inr ?out"
    by code_simp
  have 3: "length (rows ?out) = 18"
    by simp
  have 4: "rows ?out \<noteq>
            [[Time 5, Numb 1, Numb 1, Numb 1, Numb 1, Numb 1],
             [Time 5, Numb 2, Numb 2, Numb 2, Numb 2, Numb 2],
             [Time 5, Numb 3, Numb 3, Numb 3, Numb 3, Numb 3],
             [Time 5, Numb 4, Numb 4, Numb 4, Numb 4, Numb 4],
             [Time 5, Numb 5, Numb 5, Numb 5, Numb 5, Numb 5],
             [Time 5, Numb 6, Numb 6, Numb 6, Numb 6, Numb 6],
             [Time 5, Numb 7, Numb 7, Numb 7, Numb 7, Numb 7],
             [Time 5, Numb 8, Numb 8, Numb 8, Numb 8, Numb 8],
             [Time 5, Numb 9, Numb 9, Numb 9, Numb 9, Numb 9],
             [Time 5, Numb 10, Numb 10, Numb 10, Numb 10, Numb 10],
             [Time 5, Numb 11, Numb 11, Numb 11, Numb 11, Numb 11],
             [Time 5, Numb 12, Numb 12, Numb 12, Numb 12, Numb 12],
             [Time 5, Numb 13, Numb 13, Numb 13, Numb 13, Numb 13],
             [Time 5, Numb 14, Numb 14, Numb 14, Numb 14, Numb 14],
             [Time 5, Numb 15, Numb 15, Numb 15, Numb 15, Numb 15],
             [Time 5, Numb 16, Numb 16, Numb 16, Numb 16, Numb 16],
             [Time 5, Numb 17, Numb 17, Numb 17, Numb 17, Numb 17],
             [Time 5, Numb 18, Numb 18, Numb 18, Numb 18, Numb 18]]"
    by simp
  from 2 3 4 have "\<exists>out. normalize_ohlcv demo_quicksort tie18_frame None = Inr out
        \<and> length (rows out) = 18
        \<and> rows out \<noteq>
            [[Time 5, Numb 1, Numb 1, Numb 1, Numb 1, Numb 1],
             [Time 5, Numb 2, Numb 2, Numb 2, Numb 2, Numb 2],
             [Time 5, Numb 3, Numb 3, Numb 3, Numb 3, Numb 3],
             [Time 5, Numb 4, Numb 4, Numb 4, Numb 4, Numb 4],
             [Time 5, Numb 5, Numb 5, Numb 5, Numb 5, Numb 5],
             [Time 5, Numb 6, Numb 6, Numb 6, Numb 6, Numb 6],
             [Time 5, Numb 7, Numb 7, Numb 7, Numb 7, Numb 7],
             [Time 5, Numb 8, Numb 8, Numb 8, Numb 8, Numb 8],
             [Time 5, Numb 9, Numb 9, Numb 9, Numb 9, Numb 9],
             [Time 5, Numb 10, Numb 10, Numb 10, Numb 10, Numb 10],
             [Time 5, Numb 11, Numb 11, Numb 11, Numb 11, Numb 11],
             [Time 5, Numb 12, Numb 12, Numb 12, Numb 12, Numb 12],
             [Time 5, Numb 13, Numb 13, Numb 13, Numb 13, Numb 13],
             [Time 5, Numb 14, Numb 14, Numb 14, Numb 14, Numb 14],
             [Time 5, Numb 15, Numb 15, Numb 15, Numb 15, Numb 15],
             [Time 5, Numb 16, Numb 16, Numb 16, Numb 16, Numb 16],
             [Time 5, Numb 17, Numb 17, Numb 17, Numb 17, Numb 17],
             [Time 5, Numb 18, Numb 18, Numb 18, Numb 18, Numb 18]]"
    by blast
  with 1 show ?thesis by (simp only: simp_thms)
qed

section \<open>The retry policy\<close>

text \<open>
  C9: the Tushare fetch makes at most \<open>retry_count\<close> vendor calls (three by default), one
  after the other with nothing between them but a printed message. When every call
  fails, the exception of the last call is raised again; when a call succeeds, it was the
  last call made, and its frame goes on to the rename, parse, sort and selection. A count
  below one makes no call at all and raises the \<open>RuntimeError\<close> of the loop's \<open>else\<close>.
\<close>

theorem retry_bounded:
  "snd (fetch_daily P api retry_count) \<le> nat retry_count
   \<and> (0 < retry_count \<and> (\<forall>k. int k < retry_count \<longrightarrow> api k = Inl (e k)) \<longrightarrow>
        fetch_daily P api retry_count =
          (Inl (VendorError (e (nat retry_count - 1))), nat retry_count))
   \<and> (int k < retry_count \<and> api k = Inr df \<and> (\<forall>j<k. isl (api j)) \<longrightarrow>
        fetch_daily P api retry_count =
          ((case tushare_frame P df of Inl err \<Rightarrow> Inl (FrameError err) | Inr out \<Rightarrow> Inr out),
           Suc k))
   \<and> (retry_count \<le> 0 \<longrightarrow> fetch_daily P api retry_count = (Inl RuntimeError, 0))
   \<and> fetch_daily_default P api = fetch_daily P api 3"
proof (intro conjI impI)
  have "snd (retry_loop api retry_count 0) \<le> max 0 (nat retry_count)"
    by (rule retry_loop_calls) auto
  then show "snd (fetch_daily P api retry_count) \<le> nat retry_count"
    by (simp add: fetch_daily_calls)
next
  assume a: "0 < retry_count \<and> (\<forall>k. int k < retry_count \<longrightarrow> api k = Inl (e k))"
  then have "retry_loop api retry_count 0 =
      (Inl (VendorError (e (nat retry_count - 1))), nat retry_count)"
    by (intro retry_loop_all_fail) auto
  then show "fetch_daily P api retry_count =
      (Inl (VendorError (e (nat retry_count - 1))), nat retry_count)"
    by (simp add: fetch_daily_def)
next
  assume a: "int k < retry_count \<and> api k = Inr df \<and> (\<forall>j<k. isl (api j))"
  then have "retry_loop api retry_count 0 = (Inr df, Suc k)"
    by (intro retry_loop_first_success) auto
  then show "fetch_daily P api retry_count =
      ((case tushare_frame P df of Inl err \<Rightarrow> Inl (FrameError err) | Inr out \<Rightarrow> Inr out), Suc k)"
    by (simp add: fetch_daily_def split: sum.splits)
next
  assume "retry_count \<le> 0"
  then have "retry_loop api retry_count 0 = (Inl RuntimeError, 0)"
    by (subst retry_loop.simps) simp
  then show "fetch_daily P api retry_count = (Inl RuntimeError, 0)"
    by (simp add: fetch_daily_def)
next
  show "fetch_daily_default P api = fetch_daily P api 3"
    by (simp add: fetch_daily_default_def)
qed

theorem retry_bounded_witness:
  "fetch_daily_default demo_pandas dead_api = (Inl (VendorError ''third failure''), 3)
   \<and> fetch_daily_default demo_pandas flaky_api =
       (Inr \<lparr>columns = [''datetime'', ''open'', ''high'', ''low'', ''close'', ''volume''],
             rows = [[Time 2, Numb 20, Numb 21, Numb 19, Numb 20, Numb 200],
                     [Time 3, Numb 10, Numb 11, Numb 9, Numb 10, Numb 100]]\<rparr>, 2)
   \<and> fetch_daily demo_pandas flaky_api 0 = (Inl RuntimeError, 0)"
proof -
  have t: "tushare_frame demo_pandas ts_frame =
     Inr \<lparr>columns = [''datetime'', ''open'', ''high'', ''low'', ''close'', ''volume''],
             rows = [[Time 2, Numb 20, Numb 21, Numb 19, Numb 20, Numb 200],
                     [Time 3, Numb 10, Numb 11, Numb 9, Numb 10, Numb 100]]\<rparr>"
    by code_simp
  have d: "\<forall>k. int k < 3 \<longrightarrow> dead_api k = Inl ((\<lambda>k. if k = 2 then ''third failure'' else ''failure'') k)"
    by (simp add: dead_api_def)
  have f: "int 1 < 3 \<and> flaky_api 1 = Inr ts_frame \<and> (\<forall>j<1. isl (flaky_api j))"
    by (simp add: flaky_api_def)
  from retry_bounded [of demo_pandas dead_api 3 "\<lambda>k. if k = 2 then ''third failure'' else ''failure''" 0 ts_frame] d
  have 1: "fetch_daily_default demo_pandas dead_api = (Inl (VendorError ''third failure''), 3)"
    by simp
  from retry_bounded [of demo_pandas flaky_api 3 "\<lambda>k. ''x''" 1 ts_frame] f t
  have 2: "fetch_daily_default demo_pandas flaky_api =
       (Inr \<lparr>columns = [''datetime'', ''open'', ''high'', ''low'', ''close'', ''volume''],
             rows = [[Time 2, Numb 20, Numb 21, Numb 19, Numb 20, Numb 200],
                     [Time 3, Numb 10, Numb 11, Numb 9, Numb 10, Numb 100]]\<rparr>, 2)"
    by simp
  from retry_bounded [of demo_pandas flaky_api 0 "\<lambda>k. ''x''" 1 ts_frame]
  have 3: "fetch_daily demo_pandas flaky_api 0 = (Inl RuntimeError, 0)"
    by simp
  from 1 2 3 show ?thesis by simp
qed

section \<open>Properties of the credential lookup\<close>

text \<open>
  C10: \<open>get_env\<close> is total: whatever the name, it returns a value and raises nothing. It
  returns \<open>None\<close> when the variable is absent from the environment (as loaded: neither in
  the process environment nor in the \<open>.env\<close> file) and when it is set to the empty string,
  and the variable's value in every other case. A variable that the process environment
  sets to the empty string reads as absent even when the \<open>.env\<close> file gives it a value.
\<close>

theorem get_env_total:
  "fst (get_env dotenv env name) =
     (case load_dotenv dotenv env name of
        None \<Rightarrow> None
      | Some v \<Rightarrow> if v = '''' then None else Some v)
   \<and> snd (get_env dotenv env name) = load_dotenv dotenv env
   \<and> (load_dotenv dotenv env name = None \<longrightarrow> fst (get_env dotenv env name) = None)
   \<and> (load_dotenv dotenv env name = Some '''' \<longrightarrow> fst (get_env dotenv env name) = None)
   \<and> (\<forall>v. load_dotenv dotenv env name = Some v \<longrightarrow> v \<noteq> '''' \<longrightarrow>
          fst (get_env dotenv env name) = Some v)
   \<and> (env name = None \<and> dotenv name = None \<longrightarrow> fst (get_env dotenv env name) = None)
   \<and> (env name = Some '''' \<longrightarrow> fst (get_env dotenv env name) = None)
   \<and> (\<forall>v. env name = Some v \<longrightarrow> v \<noteq> '''' \<longrightarrow> fst (get_env dotenv env name) = Some v)"
proof -
  have loaded: "load_dotenv dotenv env name = (case env name of None \<Rightarrow> dotenv name | Some v \<Rightarrow> Some v)"
    by (simp add: load_dotenv_def map_add_def)
  show ?thesis
  proof (cases "load_dotenv dotenv env name")
    case None
    with loaded show ?thesis
      by (simp add: get_env_def Let_def split: option.splits)
  next
    case (Some v)
    with loaded show ?thesis
      by (cases "v = ''''") (auto simp: get_env_def Let_def split: option.splits)
  qed
qed

theorem get_env_total_witness:
  "fst (get_env [''EMPTY'' \<mapsto> ''from file''] [''TUSHARE_TOKEN'' \<mapsto> ''abc'', ''EMPTY'' \<mapsto> ''''] ''TUSHARE_TOKEN'') = Some ''abc''
   \<and> fst (get_env [''EMPTY'' \<mapsto> ''from file''] [''TUSHARE_TOKEN'' \<mapsto> ''abc'', ''EMPTY'' \<mapsto> ''''] ''EMPTY'') = None
   \<and> fst (get_env [''EMPTY'' \<mapsto> ''from file''] [''TUSHARE_TOKEN'' \<mapsto> ''abc'', ''EMPTY'' \<mapsto> ''''] ''OTHER'') = None"
  using get_env_total [of "[''EMPTY'' \<mapsto> ''from file'']" "[''TUSHARE_TOKEN'' \<mapsto> ''abc'', ''EMPTY'' \<mapsto> '''']" "''TUSHARE_TOKEN''"]
    get_env_total [of "[''EMPTY'' \<mapsto> ''from file'']" "[''TUSHARE_TOKEN'' \<mapsto> ''abc'', ''EMPTY'' \<mapsto> '''']" "''EMPTY''"]
    get_env_total [of "[''EMPTY'' \<mapsto> ''from file'']" "[''TUSHARE_TOKEN'' \<mapsto> ''abc'', ''EMPTY'' \<mapsto> '''']" "''OTHER''"]
  by (simp add: load_dotenv_def)

end
